theory Spec2Isabelle
  imports Main "HOL-Library.Word" "HOL-Library.Signed_Division"
begin

section \<open>Durations and backoff strategies\<close>

text \<open>
  Go's \<^verbatim>\<open>time.Duration\<close> is an \<^verbatim>\<open>int64\<close> count of nanoseconds: a 64-bit word
  whose arithmetic wraps around and whose comparisons are signed (read through \<open>sint\<close>).
  Go's \<^verbatim>\<open>int\<close> (the attempt index, the retry ceiling, a status code) is modelled
  as \<open>int\<close>; the conversion \<^verbatim>\<open>uint(attempt)\<close> is written out as \<open>attempt mod 2 ^ 64\<close>.
\<close>

type_synonym duration = "64 word"

definition Millisecond :: duration where
  "Millisecond = 1000000"

definition Second :: duration where
  "Second = 1000000000"

text \<open>Signed comparison of two durations, as Go's \<^verbatim>\<open><\<close> and \<^verbatim>\<open><=\<close> on \<^verbatim>\<open>int64\<close>.\<close>

definition dlt :: "duration \<Rightarrow> duration \<Rightarrow> bool" where
  "dlt a b = (sint a < sint b)"

definition dle :: "duration \<Rightarrow> duration \<Rightarrow> bool" where
  "dle a b = (sint a \<le> sint b)"

text \<open>Go's \<^verbatim>\<open>/\<close> on \<^verbatim>\<open>int64\<close> truncates towards zero.\<close>

definition ddiv :: "duration \<Rightarrow> duration \<Rightarrow> duration" where
  "ddiv a b = word_of_int (sint a sdiv sint b)"

text \<open>
  \<^verbatim>\<open>1 << uint(attempt)\<close>: the untyped constant takes the type of the other operand of
  the multiplication (\<^verbatim>\<open>time.Duration\<close>), and a shift count of 64 or more gives 0.
\<close>

definition shl1 :: "int \<Rightarrow> duration" where
  "shl1 attempt = push_bit (nat (attempt mod 2 ^ 64)) 1"

text \<open>
  \<^verbatim>\<open>
  func ExponentialBackoff(base, maxDelay time.Duration) RetryStrategy {
      return func(attempt int) time.Duration {
          if attempt == 0 && base > maxDelay { return base }
          delay := base * (1 << uint(attempt))
          if delay > maxDelay || delay <= 0 { delay = maxDelay }
          return delay
      }
  }
  \<close>
\<close>

definition ExponentialBackoff :: "duration \<Rightarrow> duration \<Rightarrow> int \<Rightarrow> duration" where
  "ExponentialBackoff base maxDelay attempt =
     (if attempt = 0 \<and> dlt maxDelay base then base
      else let delay = base * shl1 attempt
           in if dlt maxDelay delay \<or> dle delay 0 then maxDelay else delay)"

definition FixedDelay :: "duration \<Rightarrow> int \<Rightarrow> duration" where
  "FixedDelay delay attempt = delay"

text \<open>
  \<^verbatim>\<open>rand.Int63n(n)\<close> belongs to Go's standard library, not to this repository. It is
  modelled by its documented contract: it panics when \<open>n \<le> 0\<close> and otherwise returns
  a value in \<open>[0, n)\<close>. The random source is the explicit argument \<open>draw\<close> (a
  non-negative integer); \<open>None\<close> is the panic.
\<close>

definition Int63n :: "nat \<Rightarrow> duration \<Rightarrow> duration option" where
  "Int63n draw n =
     (if sint n \<le> 0 then None else Some (word_of_int (int draw mod sint n)))"

text \<open>
  \<^verbatim>\<open>
  func JitterBackoff(base, maxDelay time.Duration) RetryStrategy {
      expBackoff := ExponentialBackoff(base, maxDelay)
      return func(attempt int) time.Duration {
          baseDelay := expBackoff(attempt)
          jitter := time.Duration(rand.Int63n(int64(baseDelay / 2)))
          return baseDelay + jitter
      }
  }
  \<close>
  The result is \<open>None\<close> when the call panics.
\<close>

definition JitterBackoff :: "duration \<Rightarrow> duration \<Rightarrow> nat \<Rightarrow> int \<Rightarrow> duration option" where
  "JitterBackoff base maxDelay draw attempt =
     (let baseDelay = ExponentialBackoff base maxDelay attempt
      in case Int63n draw (ddiv baseDelay 2) of
           None \<Rightarrow> None
         | Some jitter \<Rightarrow> Some (baseDelay + jitter))"

section \<open>Errors\<close>

text \<open>
  A Go \<^verbatim>\<open>error\<close> value is either created by \<^verbatim>\<open>errors.New\<close> (a pointer to an
  \<^verbatim>\<open>errorString\<close>: two such errors are equal only when they are the same pointer, so
  the model gives each an identity besides its text) or by \<^verbatim>\<open>fmt.Errorf\<close> with one
  \<^verbatim>\<open>%w\<close> verb (a \<^verbatim>\<open>wrapError\<close> holding the formatted message and the wrapped error).
\<close>

datatype error = ErrorString nat string | WrapError string error

text \<open>\<^verbatim>\<open>err.Error()\<close>.\<close>

fun Error :: "error \<Rightarrow> string" where
  "Error (ErrorString i s) = s"
| "Error (WrapError m e) = m"

text \<open>\<^verbatim>\<open>errors.Unwrap(err)\<close>.\<close>

fun Unwrap :: "error \<Rightarrow> error option" where
  "Unwrap (ErrorString i s) = None"
| "Unwrap (WrapError m e) = Some e"

text \<open>
  \<^verbatim>\<open>errors.Is(err, target)\<close>: compare, then unwrap and repeat.
\<close>

fun errors_Is :: "error \<Rightarrow> error \<Rightarrow> bool" where
  "errors_Is (ErrorString i s) target = (ErrorString i s = target)"
| "errors_Is (WrapError m e) target = (WrapError m e = target \<or> errors_Is e target)"

text \<open>\<^verbatim>\<open>var ErrAllRetriesFailed = errors.New("all retry attempts failed")\<close>\<close>

definition ErrAllRetriesFailed :: error where
  "ErrAllRetriesFailed = ErrorString 0 ''all retry attempts failed''"

text \<open>The verb \<^verbatim>\<open>%d\<close> of \<^verbatim>\<open>fmt\<close>: an integer in decimal.\<close>

definition digit :: "nat \<Rightarrow> char" where
  "digit n = ''0123456789'' ! n"

function decimal :: "nat \<Rightarrow> string" where
  "decimal n = (if n < 10 then [digit n] else decimal (n div 10) @ [digit (n mod 10)])"
  by pat_completeness auto
termination
  by (relation "measure id") auto

definition format_d :: "int \<Rightarrow> string" where
  "format_d i = (if i < 0 then CHR ''-'' # decimal (nat (- i)) else decimal (nat i))"

text \<open>\<^verbatim>\<open>fmt.Errorf(prefix + "%w", err)\<close>\<close>

definition Errorf_w :: "string \<Rightarrow> error \<Rightarrow> error" where
  "Errorf_w prefix err = WrapError (prefix @ Error err) err"

text \<open>
  \<^verbatim>\<open>fmt.Errorf("%w: last attempt failed with status %d", ErrAllRetriesFailed, code)\<close>
\<close>

definition status_error :: "int \<Rightarrow> error" where
  "status_error code =
     WrapError (Error ErrAllRetriesFailed @ '': last attempt failed with status '' @ format_d code)
       ErrAllRetriesFailed"

section \<open>Requests, responses and the environment\<close>

text \<open>
  Everything outside the repository that \<^verbatim>\<open>RoundTrip\<close> talks to (the underlying
  transport, the request's \<^verbatim>\<open>GetBody\<close> closure, the clock) may have state of its own.
  That state is the abstract world \<open>'w\<close>, passed through every call. A Go call
  returning \<^verbatim>\<open>(value, error)\<close> returns a pair of options, \<open>None\<close> for \<^verbatim>\<open>nil\<close>.

  A request body is represented by its content. The field \<open>Context\<close> is
  \<^verbatim>\<open>req.Context().Err()\<close> as a function of the world: \<open>None\<close> while the cancellation
  signal has not fired.
\<close>

type_synonym header = "(string \<times> string list) list"

record 'w Request =
  Method :: string
  URL :: string
  Header :: header
  Body :: "string option"
  GetBody :: "('w \<Rightarrow> (string option \<times> error option) \<times> 'w) option"
  Context :: "'w \<Rightarrow> error option"

text \<open>
  A response body is an \<^verbatim>\<open>io.ReadCloser\<close>: \<open>drainErr\<close> is the error that
  \<^verbatim>\<open>io.Copy(io.Discard, body)\<close> returns when it reads the body to its end, \<open>closeErr\<close>
  the error that \<^verbatim>\<open>body.Close()\<close> returns. The \<^verbatim>\<open>net/http\<close> documentation guarantees
  that the body of a response is not \<^verbatim>\<open>nil\<close>.
\<close>

record ReadCloser =
  content :: string
  drainErr :: "error option"
  closeErr :: "error option"

record Response =
  StatusCode :: int
  RespHeader :: header
  RespBody :: ReadCloser

type_synonym 'w RoundTripper = "'w Request \<Rightarrow> 'w \<Rightarrow> (Response option \<times> error option) \<times> 'w"

text \<open>
  \<^verbatim>\<open>type RetryStrategy func(attempt int) time.Duration\<close>. Inside the retry loop a
  strategy is a function that returns: a strategy that panics (see \<open>JitterBackoff\<close>)
  takes the whole call down with it and is not followed further.
\<close>

type_synonym RetryStrategy = "int \<Rightarrow> duration"

text \<open>
  \<^verbatim>\<open>
  type retryTransport struct {
      Transport     http.RoundTripper
      RetryStrategy RetryStrategy
      MaxRetries    int
      logger        *slog.Logger
  }
  \<close>
  The logger is present or not; what it is asked to write is recorded in the trace.
\<close>

record 'w retryTransport =
  Transport :: "'w RoundTripper option"
  RetryStrategy :: "RetryStrategy option"
  MaxRetries :: int
  logger :: bool

text \<open>
  The platform: \<^verbatim>\<open>http.DefaultTransport\<close> and the effect of \<^verbatim>\<open>time.Sleep\<close> on the world.
\<close>

record 'w platform =
  DefaultTransport :: "'w RoundTripper"
  Sleep :: "duration \<Rightarrow> 'w \<Rightarrow> 'w"

text \<open>The effects of one call of \<^verbatim>\<open>RoundTrip\<close>, in the order in which they happen.\<close>

datatype attr = AInt int | ADuration duration | AError error | AString string

datatype 'w event =
    EvGetBody "string option" "error option"
  | EvRoundTrip "'w Request" "Response option" "error option"
  | EvDrain ReadCloser
  | EvClose ReadCloser
  | EvWarn string "(string \<times> attr) list"
  | EvError string "(string \<times> attr) list"
  | EvSleep duration

text \<open>
  What \<^verbatim>\<open>RoundTrip\<close> gives back: a response with a \<^verbatim>\<open>nil\<close> error, a \<^verbatim>\<open>nil\<close> response
  with an error, or a panic (a \<^verbatim>\<open>nil\<close> pointer dereference).
\<close>

datatype result = Resp Response | Err error | Panic

record 'w outcome =
  result :: result
  request :: "'w Request"
  world :: 'w
  trace :: "'w event list"

section \<open>The retrying transport\<close>

text \<open>
  Line numbers are those of the source file that defines \<^verbatim>\<open>retryTransport\<close>.
\<close>

definition StatusInternalServerError :: int where
  "StatusInternalServerError = 500"

text \<open>
  Lines 95 to 102 of the loop body:
  \<^verbatim>\<open>
  if req.Body != nil && req.GetBody != nil {
      bodyClone, err := req.GetBody()
      if err != nil {
          return nil, fmt.Errorf("failed to get request body for retry: %w", err)
      }
      req.Body = bodyClone
  }
  \<close>
  The first component is the error returned, if any.
\<close>

definition regenerate ::
  "'w Request \<Rightarrow> 'w \<Rightarrow> error option \<times> 'w Request \<times> 'w \<times> 'w event list" where
  "regenerate req w =
     (case (Body req, GetBody req) of
        (Some b, Some g) \<Rightarrow>
          (case g w of
             ((bodyClone, Some err), w') \<Rightarrow>
               (Some (Errorf_w ''failed to get request body for retry: '' err), req, w',
                [EvGetBody bodyClone (Some err)])
           | ((bodyClone, None), w') \<Rightarrow>
               (None, req\<lparr>Body := bodyClone\<rparr>, w', [EvGetBody bodyClone None]))
      | _ \<Rightarrow> (None, req, w, []))"

text \<open>
  Lines 113 to 126:
  \<^verbatim>\<open>
  if resp != nil {
      _, copyErr := io.Copy(io.Discard, resp.Body)
      closeErr := resp.Body.Close()
      if copyErr != nil {
          return nil, fmt.Errorf("failed to discard response body: %w", copyErr)
      }
      if closeErr != nil {
          return nil, fmt.Errorf("failed to close response body: %w", closeErr)
      }
  }
  \<close>
\<close>

definition discard :: "Response option \<Rightarrow> error option \<times> 'w event list" where
  "discard resp =
     (case resp of
        None \<Rightarrow> (None, [])
      | Some rs \<Rightarrow>
          (let copyErr = drainErr (RespBody rs);
               closeErr' = closeErr (RespBody rs);
               evs = [EvDrain (RespBody rs), EvClose (RespBody rs)]
           in case copyErr of
                Some e \<Rightarrow> (Some (Errorf_w ''failed to discard response body: '' e), evs)
              | None \<Rightarrow>
                  (case closeErr' of
                     Some e \<Rightarrow> (Some (Errorf_w ''failed to close response body: '' e), evs)
                   | None \<Rightarrow> (None, evs))))"

text \<open>Lines 133 to 153: the warning logged before a retry.\<close>

definition retry_log ::
  "'w retryTransport \<Rightarrow> int \<Rightarrow> duration \<Rightarrow> 'w Request \<Rightarrow> Response option \<Rightarrow> error option
   \<Rightarrow> 'w event list" where
  "retry_log r attempt delay req resp err =
     (if logger r then
        (case err of
           Some e \<Rightarrow>
             [EvWarn ''HTTP request failed, retrying''
                [(''attempt'', AInt (attempt + 1)), (''max_retries'', AInt (MaxRetries r)),
                 (''delay'', ADuration delay), (''error'', AError e),
                 (''url'', AString (URL req)), (''method'', AString (Method req))]]
         | None \<Rightarrow>
             (case resp of
                Some rs \<Rightarrow>
                  [EvWarn ''HTTP request returned server error, retrying''
                     [(''attempt'', AInt (attempt + 1)), (''max_retries'', AInt (MaxRetries r)),
                      (''delay'', ADuration delay), (''status_code'', AInt (StatusCode rs)),
                      (''url'', AString (URL req)), (''method'', AString (Method req))]]
              | None \<Rightarrow> []))
      else [])"

text \<open>Lines 158 to 174: the error logged when no attempt is left.\<close>

definition final_log ::
  "'w retryTransport \<Rightarrow> 'w Request \<Rightarrow> Response option \<Rightarrow> error option \<Rightarrow> 'w event list" where
  "final_log r req resp err =
     (if logger r then
        (case err of
           Some e \<Rightarrow>
             [EvError ''All retry attempts failed''
                [(''attempts'', AInt (MaxRetries r + 1)), (''error'', AError e),
                 (''url'', AString (URL req)), (''method'', AString (Method req))]]
         | None \<Rightarrow>
             (case resp of
                Some rs \<Rightarrow>
                  [EvError ''All retry attempts failed''
                     [(''attempts'', AInt (MaxRetries r + 1)),
                      (''status_code'', AInt (StatusCode rs)),
                      (''url'', AString (URL req)), (''method'', AString (Method req))]]
              | None \<Rightarrow> []))
      else [])"

text \<open>
  Lines 176 to 186: the error returned when no attempt is left.
  \<^verbatim>\<open>
  if err != nil {
      return nil, fmt.Errorf("all retries failed; last error: %w", err)
  }
  if resp != nil {
      return nil, fmt.Errorf("%w: last attempt failed with status %d", ErrAllRetriesFailed, resp.StatusCode)
  }
  return nil, ErrAllRetriesFailed
  \<close>
\<close>

definition exhausted :: "Response option \<Rightarrow> error option \<Rightarrow> error" where
  "exhausted resp err =
     (case err of
        Some e \<Rightarrow> Errorf_w ''all retries failed; last error: '' e
      | None \<Rightarrow>
          (case resp of
             Some rs \<Rightarrow> status_error (StatusCode rs)
           | None \<Rightarrow> ErrAllRetriesFailed))"

text \<open>
  Lines 111 to 187, reached when the attempt did not succeed: clean up the response,
  then either sleep and go round again, or give up.
\<close>

datatype step = Return result | Continue

definition after_failure ::
  "RetryStrategy \<Rightarrow> 'w platform \<Rightarrow> 'w retryTransport \<Rightarrow> int \<Rightarrow> 'w Request \<Rightarrow> 'w
   \<Rightarrow> Response option \<Rightarrow> error option \<Rightarrow> step \<times> 'w \<times> 'w event list" where
  "after_failure retryStrategy pf r attempt req w resp err =
     (case discard resp of
        (Some e, evs) \<Rightarrow> (Return (Err e), w, evs)
      | (None, evs) \<Rightarrow>
          (if attempt < MaxRetries r then
             (let delay = retryStrategy attempt
              in (Continue, Sleep pf delay w,
                  evs @ retry_log r attempt delay req resp err @ [EvSleep delay]))
           else
             (Return (Err (exhausted resp err)), w, evs @ final_log r req resp err)))"

text \<open>
  Lines 106 to 187: what the loop body does with the outcome \<^verbatim>\<open>(resp, err)\<close> of the
  underlying transport. With \<^verbatim>\<open>err == nil\<close> and \<^verbatim>\<open>resp == nil\<close> the test
  \<^verbatim>\<open>resp.StatusCode < http.StatusInternalServerError\<close> dereferences a \<^verbatim>\<open>nil\<close> pointer.
\<close>

definition handle ::
  "RetryStrategy \<Rightarrow> 'w platform \<Rightarrow> 'w retryTransport \<Rightarrow> int \<Rightarrow> 'w Request \<Rightarrow> 'w
   \<Rightarrow> Response option \<Rightarrow> error option \<Rightarrow> step \<times> 'w \<times> 'w event list" where
  "handle retryStrategy pf r attempt req w resp err =
     (case (resp, err) of
        (None, None) \<Rightarrow> (Return Panic, w, [])
      | (Some rs, None) \<Rightarrow>
          (if StatusCode rs < StatusInternalServerError then (Return (Resp rs), w, [])
           else after_failure retryStrategy pf r attempt req w resp err)
      | (_, Some e) \<Rightarrow> after_failure retryStrategy pf r attempt req w resp err)"

text \<open>
  One pass through the loop body (lines 93 to 187): regenerate the body, call
  \<^verbatim>\<open>transport.RoundTrip(req)\<close>, handle the outcome.
\<close>

definition iteration ::
  "'w RoundTripper \<Rightarrow> RetryStrategy \<Rightarrow> 'w platform \<Rightarrow> 'w retryTransport \<Rightarrow> int
   \<Rightarrow> 'w Request \<Rightarrow> 'w \<Rightarrow> step \<times> 'w Request \<times> 'w \<times> 'w event list" where
  "iteration transport retryStrategy pf r attempt req w =
     (case regenerate req w of
        (Some e, req1, w1, evs1) \<Rightarrow> (Return (Err e), req1, w1, evs1)
      | (None, req1, w1, evs1) \<Rightarrow>
          (case transport req1 w1 of
             ((resp, err), w2) \<Rightarrow>
               (case handle retryStrategy pf r attempt req1 w2 resp err of
                  (st, w3, evs3) \<Rightarrow>
                    (st, req1, w3, evs1 @ EvRoundTrip req1 resp err # evs3))))"

text \<open>
  \<^verbatim>\<open>for attempt := 0; attempt <= r.MaxRetries; attempt++ { ... }\<close> followed by
  \<^verbatim>\<open>return nil, ErrAllRetriesFailed\<close> (line 190). The counter is an unbounded
  integer here: a wrap-around of \<^verbatim>\<open>attempt++\<close> would need \<open>2 ^ 63\<close> passes.
\<close>

function loop ::
  "'w RoundTripper \<Rightarrow> RetryStrategy \<Rightarrow> 'w platform \<Rightarrow> 'w retryTransport \<Rightarrow> int
   \<Rightarrow> 'w Request \<Rightarrow> 'w \<Rightarrow> 'w outcome" where
  "loop transport retryStrategy pf r attempt req w =
     (if attempt \<le> MaxRetries r then
        (case iteration transport retryStrategy pf r attempt req w of
           (Return res, req', w', evs) \<Rightarrow>
             \<lparr>result = res, request = req', world = w', trace = evs\<rparr>
         | (Continue, req', w', evs) \<Rightarrow>
             (let out = loop transport retryStrategy pf r (attempt + 1) req' w'
              in out\<lparr>trace := evs @ trace out\<rparr>))
      else \<lparr>result = Err ErrAllRetriesFailed, request = req, world = w, trace = []\<rparr>)"
  by pat_completeness auto
termination
  by (relation "measure (\<lambda>(transport, retryStrategy, pf, r, attempt, req, w).
        nat (MaxRetries r + 1 - attempt))") auto

text \<open>
  \<^verbatim>\<open>
  func (r *retryTransport) RoundTrip(req *http.Request) (*http.Response, error) {
      transport := r.Transport
      if transport == nil { transport = http.DefaultTransport }
      retryStrategy := r.RetryStrategy
      if retryStrategy == nil {
          retryStrategy = ExponentialBackoff(500*time.Millisecond, 10*time.Second)
      }
      for ... 
  }
  \<close>
\<close>

definition transport_of :: "'w platform \<Rightarrow> 'w retryTransport \<Rightarrow> 'w RoundTripper" where
  "transport_of pf r = (case Transport r of None \<Rightarrow> DefaultTransport pf | Some t \<Rightarrow> t)"

definition strategy_of :: "'w retryTransport \<Rightarrow> RetryStrategy" where
  "strategy_of r =
     (case RetryStrategy r of
        None \<Rightarrow> ExponentialBackoff (500 * Millisecond) (10 * Second)
      | Some s \<Rightarrow> s)"

definition RoundTrip :: "'w platform \<Rightarrow> 'w retryTransport \<Rightarrow> 'w Request \<Rightarrow> 'w \<Rightarrow> 'w outcome" where
  "RoundTrip pf r req w = loop (transport_of pf r) (strategy_of r) pf r 0 req w"

text \<open>
  The invocations of the underlying transport recorded in a trace, oldest first: the
  request passed and the outcome received.
\<close>

fun calls :: "'w event list \<Rightarrow> ('w Request \<times> Response option \<times> error option) list" where
  "calls [] = []"
| "calls (EvRoundTrip rq resp err # evs) = (rq, resp, err) # calls evs"
| "calls (ev # evs) = calls evs"

definition invocations :: "'w event list \<Rightarrow> nat" where
  "invocations evs = length (calls evs)"

section \<open>Assembling the retry client\<close>

text \<open>
  \<^verbatim>\<open>
  DefaultMaxRetries = 3
  DefaultBaseDelay  = 500 * time.Millisecond
  DefaultMaxDelay   = 10 * time.Second
  \<close>
\<close>

definition DefaultMaxRetries :: int where
  "DefaultMaxRetries = 3"

definition DefaultBaseDelay :: duration where
  "DefaultBaseDelay = 500 * Millisecond"

definition DefaultMaxDelay :: duration where
  "DefaultMaxDelay = 10 * Second"

record 'w retryClientConfig =
  maxRetries :: int
  strategy :: "RetryStrategy option"
  baseTransport :: "'w RoundTripper option"
  configLogger :: bool

type_synonym 'w RetryClientOption = "'w retryClientConfig \<Rightarrow> 'w retryClientConfig"

definition WithMaxRetriesRetry :: "int \<Rightarrow> 'w RetryClientOption" where
  "WithMaxRetriesRetry n c = c\<lparr>maxRetries := n\<rparr>"

definition WithRetryStrategyRetry :: "RetryStrategy option \<Rightarrow> 'w RetryClientOption" where
  "WithRetryStrategyRetry st c = c\<lparr>strategy := st\<rparr>"

definition WithBaseTransport :: "'w RoundTripper option \<Rightarrow> 'w RetryClientOption" where
  "WithBaseTransport t c = c\<lparr>baseTransport := t\<rparr>"

definition WithLoggerRetry :: "bool \<Rightarrow> 'w RetryClientOption" where
  "WithLoggerRetry l c = c\<lparr>configLogger := l\<rparr>"

text \<open>
  \<^verbatim>\<open>NewHTTPRetryClient(options...)\<close>: the defaults, the options applied in order, the
  two \<^verbatim>\<open>nil\<close> checks. The result is the \<^verbatim>\<open>retryTransport\<close> placed in the returned
  \<^verbatim>\<open>http.Client\<close>. No option is validated: the retry ceiling is whatever the caller
  passes.
\<close>

definition NewHTTPRetryClient :: "'w platform \<Rightarrow> 'w RetryClientOption list \<Rightarrow> 'w retryTransport" where
  "NewHTTPRetryClient pf options =
     (let config0 = \<lparr>maxRetries = DefaultMaxRetries,
                      strategy = Some (ExponentialBackoff DefaultBaseDelay DefaultMaxDelay),
                      baseTransport = None, configLogger = False\<rparr>;
          config1 = fold (\<lambda>option c. option c) options config0;
          config2 = (if baseTransport config1 = None
                     then config1\<lparr>baseTransport := Some (DefaultTransport pf)\<rparr> else config1);
          config3 = (if strategy config2 = None
                     then config2\<lparr>strategy :=
                            Some (ExponentialBackoff DefaultBaseDelay DefaultMaxDelay)\<rparr>
                     else config2)
      in \<lparr>Transport = baseTransport config3, RetryStrategy = strategy config3,
          MaxRetries = maxRetries config3, logger = configLogger config3\<rparr>)"

text \<open>
  The outcomes of an attempt that the loop does not return at once (line 107 negated):
  a transport error, or no transport error and a status code of 500 or more.
\<close>

definition retryable :: "Response option \<Rightarrow> error option \<Rightarrow> bool" where
  "retryable resp err =
     (case err of
        Some e \<Rightarrow> True
      | None \<Rightarrow> (case resp of Some rs \<Rightarrow> StatusInternalServerError \<le> StatusCode rs | None \<Rightarrow> False))"

text \<open>The clean-up of lines 113 to 126 finds no error.\<close>

definition discards_cleanly :: "Response option \<Rightarrow> bool" where
  "discards_cleanly resp =
     (case resp of
        None \<Rightarrow> True
      | Some rs \<Rightarrow> drainErr (RespBody rs) = None \<and> closeErr (RespBody rs) = None)"

text \<open>
  A trace with the context of every request passed to the transport replaced: what the
  trace of a call would be had the request carried another cancellation signal.
\<close>

definition with_context :: "('w \<Rightarrow> error option) \<Rightarrow> 'w event \<Rightarrow> 'w event" where
  "with_context c ev =
     (case ev of
        EvRoundTrip rq resp err \<Rightarrow> EvRoundTrip (rq\<lparr>Context := c\<rparr>) resp err
      | _ \<Rightarrow> ev)"

text \<open>The delays of the calls of \<^verbatim>\<open>time.Sleep\<close> recorded in a trace, oldest first.\<close>

fun sleeps :: "'w event list \<Rightarrow> duration list" where
  "sleeps [] = []"
| "sleeps (EvSleep d # evs) = d # sleeps evs"
| "sleeps (ev # evs) = sleeps evs"

section \<open>Scenarios\<close>

text \<open>
  Concrete environments in the style of the repository's tests (a mock transport that
  counts its invocations, a \<^verbatim>\<open>GetBody\<close> closure that counts its calls), with a clock
  that \<^verbatim>\<open>time.Sleep\<close> advances.
\<close>

record sim =
  attempts :: nat
  getBodyAttempts :: nat
  now :: int

definition start :: sim where
  "start = \<lparr>attempts = 0, getBodyAttempts = 0, now = 0\<rparr>"

definition nop_closer :: "string \<Rightarrow> ReadCloser" where
  "nop_closer s = \<lparr>content = s, drainErr = None, closeErr = None\<rparr>"

text \<open>
  The body of the tests that fails on read, on close, or both. Its \<^verbatim>\<open>Read\<close> returns
  the read error only after one successful read, so draining an empty content ends at
  \<^verbatim>\<open>io.EOF\<close> without error, and draining any other content ends with the read error.
\<close>

definition errorReaderCloser :: "error option \<Rightarrow> error option \<Rightarrow> string \<Rightarrow> ReadCloser" where
  "errorReaderCloser rerr cerr s =
     \<lparr>content = s, drainErr = (if s = [] then None else rerr), closeErr = cerr\<rparr>"

definition reply :: "int \<Rightarrow> ReadCloser \<Rightarrow> sim RoundTripper" where
  "reply status body =
     (\<lambda>rq w. ((Some \<lparr>StatusCode = status, RespHeader = [], RespBody = body\<rparr>, None),
              w\<lparr>attempts := Suc (attempts w)\<rparr>))"

text \<open>
  A transport that looks at the request's context, as \<^verbatim>\<open>http.DefaultTransport\<close> does:
  once the signal has fired it reports the context's error as a transport error.
\<close>

definition reply_unless_done :: "int \<Rightarrow> ReadCloser \<Rightarrow> sim RoundTripper" where
  "reply_unless_done status body =
     (\<lambda>rq w. case Context rq w of
                Some e \<Rightarrow> ((None, Some e), w\<lparr>attempts := Suc (attempts w)\<rparr>)
              | None \<Rightarrow> reply status body rq w)"

definition refuse :: "error \<Rightarrow> sim RoundTripper" where
  "refuse e = (\<lambda>rq w. ((None, Some e), w\<lparr>attempts := Suc (attempts w)\<rparr>))"

definition test_platform :: "sim platform" where
  "test_platform =
     \<lparr>DefaultTransport = reply 200 (nop_closer ''OK''),
      Sleep = (\<lambda>d w. w\<lparr>now := now w + max 0 (sint d)\<rparr>)\<rparr>"

definition retrier :: "sim RoundTripper \<Rightarrow> int \<Rightarrow> sim retryTransport" where
  "retrier t m =
     \<lparr>Transport = Some t, RetryStrategy = Some (FixedDelay Millisecond), MaxRetries = m,
      logger = False\<rparr>"

definition simulatedError :: error where
  "simulatedError = ErrorString 1 ''simulated transport error''"

definition simulatedReadError :: error where
  "simulatedReadError = ErrorString 2 ''simulated read error during drain''"

definition simulatedCloseError :: error where
  "simulatedCloseError = ErrorString 3 ''simulated close error''"

definition getBodyError :: error where
  "getBodyError = ErrorString 4 ''failed to get body''"

definition DeadlineExceeded :: error where
  "DeadlineExceeded = ErrorString 5 ''context deadline exceeded''"

definition get_request :: "sim Request" where
  "get_request =
     \<lparr>Method = ''GET'', URL = ''http://example.com'', Header = [], Body = None,
      GetBody = None, Context = (\<lambda>w. None)\<rparr>"

definition post_request ::
  "(sim \<Rightarrow> (string option \<times> error option) \<times> sim) option \<Rightarrow> sim Request" where
  "post_request g =
     \<lparr>Method = ''POST'', URL = ''http://example.com'', Header = [],
      Body = Some ''Request Body Content'', GetBody = g, Context = (\<lambda>w. None)\<rparr>"

text \<open>A \<^verbatim>\<open>GetBody\<close> that fails from its \<open>n\<close>-th call on (counting from 0).\<close>

definition failing_from :: "nat \<Rightarrow> sim \<Rightarrow> (string option \<times> error option) \<times> sim" where
  "failing_from n w =
     ((if n \<le> getBodyAttempts w then (None, Some getBodyError)
       else (Some ''Request Body Content'', None)),
      w\<lparr>getBodyAttempts := Suc (getBodyAttempts w)\<rparr>)"

text \<open>A request whose context has a deadline on the clock of the scenario.\<close>

definition with_deadline :: "int \<Rightarrow> sim Request \<Rightarrow> sim Request" where
  "with_deadline t rq =
     rq\<lparr>Context := (\<lambda>w. if t \<le> now w then Some DeadlineExceeded else None)\<rparr>"

declare loop.simps [simp del]

declare decimal.simps [simp del]

section \<open>Properties of the backoff strategies\<close>

lemma FixedDelay_constant: "FixedDelay d attempt = d"
  by (simp add: FixedDelay_def)

subsection \<open>Exponential backoff\<close>

text \<open>
  As long as the exact product \<open>base * 2 ^ attempt\<close> fits into 64 bits, the code
  computes what its documentation says: the product capped at \<open>maxDelay\<close>, the cap
  itself for a product that is not positive, and \<open>base\<close> at attempt 0 when it exceeds
  the cap. A wrapped product that is not positive is replaced by the cap as well.
\<close>

lemma sint_word_of_int_in_range:
  "- (2 ^ 63) \<le> k \<Longrightarrow> k < 2 ^ 63 \<Longrightarrow> sint (word_of_int k :: 64 word) = k"
  by (simp add: sint_sbintrunc' signed_take_bit_int_eq_self)

lemma product_eq:
  "base * shl1 a = (word_of_int (sint base * 2 ^ nat (a mod 2 ^ 64)) :: 64 word)"
proof -
  have "shl1 a = (word_of_int (2 ^ nat (a mod 2 ^ 64)) :: 64 word)"
    by (simp add: shl1_def push_bit_eq_mult)
  moreover have "base = word_of_int (sint base)" by simp
  ultimately have "base * shl1 a
      = word_of_int (sint base) * (word_of_int (2 ^ nat (a mod 2 ^ 64)) :: 64 word)"
    by simp
  then show ?thesis by (simp only: wi_hom_mult)
qed

lemma sint_product:
  assumes "0 \<le> a" and "a < 2 ^ 64"
    and "- (2 ^ 63) \<le> sint base * 2 ^ nat a" and "sint base * 2 ^ nat a < 2 ^ 63"
  shows "sint (base * shl1 a) = sint base * 2 ^ nat a"
proof -
  from assms(1,2) have "a mod 2 ^ 64 = a" by simp
  with product_eq [of base a]
  have "base * shl1 a = (word_of_int (sint base * 2 ^ nat a) :: 64 word)"
    by (simp only:)
  then have "sint (base * shl1 a) = sint (word_of_int (sint base * 2 ^ nat a) :: 64 word)"
    by (simp only:)
  also have "\<dots> = sint base * 2 ^ nat a"
    using assms(3,4) by (rule sint_word_of_int_in_range)
  finally show ?thesis .
qed

lemma ExponentialBackoff_without_overflow:
  assumes "0 \<le> attempt" and "attempt < 2 ^ 63"
    and "- (2 ^ 63) \<le> sint base * 2 ^ nat attempt" and "sint base * 2 ^ nat attempt < 2 ^ 63"
  shows "sint (ExponentialBackoff base maxDelay attempt)
      = (if attempt = 0 \<and> sint maxDelay < sint base then sint base
         else if sint base * 2 ^ nat attempt \<le> 0 then sint maxDelay
         else min (sint base * 2 ^ nat attempt) (sint maxDelay))"
proof -
  from assms(2) have "attempt < 2 ^ 64" by simp
  from sint_product [OF assms(1) this assms(3,4)] show ?thesis
    by (simp add: ExponentialBackoff_def dlt_def dle_def Let_def min_def)
qed

lemma ExponentialBackoff_wrapped_non_positive:
  assumes "\<not> (attempt = 0 \<and> sint maxDelay < sint base)"
    and "sint (base * shl1 attempt) \<le> 0"
  shows "ExponentialBackoff base maxDelay attempt = maxDelay"
  using assms by (auto simp: ExponentialBackoff_def dlt_def dle_def Let_def)

text \<open>
  Claim C6 (exponential backoff equals \<open>min (base * 2 ^ attempt) max\<close>, with an
  overflowed product clamped to \<open>max\<close>). The guard \<^verbatim>\<open>delay > maxDelay || delay <= 0\<close>
  only catches an overflow whose wrapped value is non-positive or above the cap. With
  \<open>base = 2 ^ 62 + 1\<close>, \<open>maxDelay = 2 ^ 63 - 1\<close> and \<open>attempt = 2\<close> the exact product
  \<open>2 ^ 64 + 4\<close> exceeds the cap, but the 64-bit product wraps to 4 nanoseconds, which
  passes the guard and is returned: less than \<open>base\<close> and not the cap. Likewise with
  \<open>base = 2 ^ 31 + 1\<close> nanoseconds (about 2.1 seconds), a cap of 10 seconds and
  \<open>attempt = 33\<close>: the product \<open>2 ^ 64 + 2 ^ 33\<close> wraps to \<open>2 ^ 33\<close> nanoseconds
  (about 8.6 seconds), which is returned in place of the cap.
\<close>

theorem ExponentialBackoff_overflow_wraps_below_cap:
  "ExponentialBackoff (2 ^ 62 + 1) (2 ^ 63 - 1) 2 = 4
   \<and> sint (2 ^ 63 - 1 :: duration) < sint (2 ^ 62 + 1 :: duration) * 2 ^ 2
   \<and> ExponentialBackoff (2 ^ 62 + 1) (2 ^ 63 - 1) 2 \<noteq> 2 ^ 63 - 1
   \<and> ExponentialBackoff 2147483649 (10 * Second) 33 = 8589934592
   \<and> sint (10 * Second) < sint (2147483649 :: duration) * 2 ^ 33
   \<and> ExponentialBackoff 2147483649 (10 * Second) 33 \<noteq> 10 * Second"
  by (simp add: ExponentialBackoff_def shl1_def dlt_def dle_def Second_def)

subsection \<open>Jitter backoff\<close>

text \<open>
  When the exponential value \<open>E\<close> is at least 2 nanoseconds and \<open>E + E / 2\<close> fits into
  64 bits, the jittered delay lies in \<open>[E, E + E / 2)\<close> for every random draw. When \<open>E\<close>
  is at most 1 nanosecond, the call panics for every random draw.
\<close>

lemma JitterBackoff_range:
  assumes e: "ExponentialBackoff base maxDelay attempt = e"
    and two: "2 \<le> sint e" and room: "sint e + sint e div 2 \<le> 2 ^ 63"
  shows "\<exists>r. JitterBackoff base maxDelay draw attempt = Some r
           \<and> sint e \<le> sint r \<and> sint r < sint e + sint e div 2"
proof -
  let ?n = "sint e div 2"
  let ?j = "int draw mod ?n"
  have n1: "1 \<le> ?n" using two by simp
  have elt: "sint e < 2 ^ 63" using sint_lt [of e] by simp
  have sd: "sint e sdiv sint (2 :: 64 word) = ?n"
    using two by (simp add: signed_divide_int_def sgn_if)
  have half: "sint (ddiv e 2) = ?n"
    unfolding ddiv_def sd using two elt by (intro sint_word_of_int_in_range) simp_all
  have j: "0 \<le> ?j" "?j < ?n" using n1 by simp_all
  from j room have "sint (word_of_int ?j :: 64 word) = ?j"
    by (intro sint_word_of_int_in_range) simp_all
  moreover have "- (2 ^ 63) \<le> sint e + ?j" "sint e + ?j < 2 ^ 63"
    using two j room by linarith+
  ultimately have r: "sint (e + word_of_int ?j) = sint e + ?j"
    by (simp add: sint_word_add signed_take_bit_int_eq_self)
  have "JitterBackoff base maxDelay draw attempt = Some (e + word_of_int ?j)"
    using n1 by (simp add: JitterBackoff_def e Int63n_def half)
  with r j show ?thesis by simp
qed

lemma JitterBackoff_panics:
  assumes "ExponentialBackoff base maxDelay attempt = e" and "sint e \<le> 1"
  shows "JitterBackoff base maxDelay draw attempt = None"
proof -
  have "sint e sdiv sint (2 :: 64 word) \<le> 0"
    using assms(2) by (simp add: signed_divide_int_def sgn_if)
  moreover have "- (2 ^ 63) \<le> sint e sdiv sint (2 :: 64 word)"
    using sint_ge [of e] by (simp add: signed_divide_int_def sgn_if) arith
  ultimately have "sint (ddiv e 2) \<le> 0"
    unfolding ddiv_def by (subst sint_word_of_int_in_range) simp_all
  then show ?thesis
    by (simp add: JitterBackoff_def assms(1) Int63n_def)
qed

text \<open>
  Claim C7 (jitter backoff is total, lies in \<open>[E, 1.5 * E)\<close>, and adds no jitter when
  \<open>E = 0\<close>). The code passes \<open>E / 2\<close> to \<^verbatim>\<open>rand.Int63n\<close> without a guard, and
  \<^verbatim>\<open>rand.Int63n\<close> panics on an argument that is not positive. With
  \<open>base = maxDelay = 0\<close> the exponential value is 0 and the call panics for every
  random draw, instead of returning 0.
\<close>

theorem JitterBackoff_zero_delay_panics:
  "ExponentialBackoff 0 0 0 = 0 \<and> JitterBackoff 0 0 draw 0 = None"
  by (simp add: JitterBackoff_def ExponentialBackoff_def shl1_def dlt_def dle_def
      Int63n_def ddiv_def)

section \<open>Properties of the retrying transport\<close>

subsection \<open>One pass through the loop\<close>

lemma calls_append [simp]: "calls (a @ b) = calls a @ calls b"
  by (induction a rule: calls.induct) simp_all

lemma regenerate_calls: "regenerate req w = (e, req1, w1, evs1) \<Longrightarrow> calls evs1 = []"
  by (auto simp: regenerate_def split: option.splits prod.splits)

lemma discard_calls: "discard resp = (e, evs) \<Longrightarrow> calls evs = []"
  by (auto simp: discard_def Let_def split: option.splits)

lemma retry_log_calls [simp]: "calls (retry_log r a d req resp err) = []"
  by (simp add: retry_log_def split: option.splits)

lemma final_log_calls [simp]: "calls (final_log r req resp err) = []"
  by (simp add: final_log_def split: option.splits)

lemma after_failure_calls:
  "after_failure S pf r a req w resp err = (st, w', evs) \<Longrightarrow> calls evs = []"
  by (auto simp: after_failure_def Let_def dest: discard_calls
      split: prod.splits option.splits if_splits)

lemma handle_calls: "handle S pf r a req w resp err = (st, w', evs) \<Longrightarrow> calls evs = []"
  by (auto simp: handle_def dest: after_failure_calls split: option.splits if_splits)

lemma handle_below_500:
  "StatusCode rs < 500 \<Longrightarrow> handle S pf r a req w (Some rs) None = (Return (Resp rs), w, [])"
  by (simp add: handle_def StatusInternalServerError_def)

lemma iteration_regen_fail:
  "regenerate req w = (Some e, req1, w1, evs1) \<Longrightarrow>
   iteration T S pf r a req w = (Return (Err e), req1, w1, evs1)"
  by (simp add: iteration_def)

lemma iteration_regen_ok:
  "regenerate req w = (None, req1, w1, evs1) \<Longrightarrow> T req1 w1 = ((resp, err), w2) \<Longrightarrow>
   handle S pf r a req1 w2 resp err = (st, w3, evs3) \<Longrightarrow>
   iteration T S pf r a req w = (st, req1, w3, evs1 @ EvRoundTrip req1 resp err # evs3)"
  by (simp add: iteration_def)

lemma iteration_cases [consumes 1, case_names fail call]:
  assumes "iteration T S pf r a req w = (st, req', w', evs)"
  obtains (fail) e where "regenerate req w = (Some e, req', w', evs)" "st = Return (Err e)"
  | (call) w1 evs1 resp err w2 evs3 where
      "regenerate req w = (None, req', w1, evs1)" "T req' w1 = ((resp, err), w2)"
      "handle S pf r a req' w2 resp err = (st, w', evs3)"
      "evs = evs1 @ EvRoundTrip req' resp err # evs3"
  using assms by (auto simp: iteration_def split: prod.splits option.splits)

lemma loop_stop:
  "\<not> a \<le> MaxRetries r \<Longrightarrow>
   loop T S pf r a req w = \<lparr>result = Err ErrAllRetriesFailed, request = req, world = w, trace = []\<rparr>"
  by (simp add: loop.simps)

lemma loop_Return:
  "a \<le> MaxRetries r \<Longrightarrow> iteration T S pf r a req w = (Return res, req', w', evs) \<Longrightarrow>
   loop T S pf r a req w = \<lparr>result = res, request = req', world = w', trace = evs\<rparr>"
  by (simp add: loop.simps)

lemma loop_Continue:
  "a \<le> MaxRetries r \<Longrightarrow> iteration T S pf r a req w = (Continue, req', w', evs) \<Longrightarrow>
   loop T S pf r a req w =
     (loop T S pf r (a + 1) req' w')\<lparr>trace := evs @ trace (loop T S pf r (a + 1) req' w')\<rparr>"
  by (simp add: loop.simps Let_def)

lemma loop_cases [case_names stop return continue]:
  obtains (stop) "\<not> a \<le> MaxRetries r"
      "loop T S pf r a req w =
         \<lparr>result = Err ErrAllRetriesFailed, request = req, world = w, trace = []\<rparr>"
  | (return) res req' w' evs where "a \<le> MaxRetries r"
      "iteration T S pf r a req w = (Return res, req', w', evs)"
      "loop T S pf r a req w = \<lparr>result = res, request = req', world = w', trace = evs\<rparr>"
  | (continue) req' w' evs where "a \<le> MaxRetries r"
      "iteration T S pf r a req w = (Continue, req', w', evs)"
      "loop T S pf r a req w =
         (loop T S pf r (a + 1) req' w')\<lparr>trace := evs @ trace (loop T S pf r (a + 1) req' w')\<rparr>"
proof (cases "a \<le> MaxRetries r")
  case False
  show ?thesis by (rule stop [OF False loop_stop [OF False]])
next
  case True
  obtain st req' w' evs where it: "iteration T S pf r a req w = (st, req', w', evs)"
    by (cases "iteration T S pf r a req w") auto
  show ?thesis
  proof (cases st)
    case (Return res)
    show ?thesis
      by (rule return [OF True it [unfolded Return] loop_Return [OF True it [unfolded Return]]])
  next
    case Continue
    show ?thesis
      by (rule continue [OF True it [unfolded Continue] loop_Continue [OF True it [unfolded Continue]]])
  qed
qed

lemmas scenario_defs =
  RoundTrip_def transport_of_def strategy_of_def loop.simps iteration_def regenerate_def
  handle_def after_failure_def discard_def exhausted_def final_log_def retry_log_def
  StatusInternalServerError_def invocations_def FixedDelay_def Errorf_w_def
  start_def nop_closer_def reply_def refuse_def test_platform_def retrier_def
  get_request_def post_request_def failing_from_def with_deadline_def Millisecond_def
  errorReaderCloser_def reply_unless_done_def

subsection \<open>A response below 500 ends the loop\<close>

lemma loop_first_call:
  assumes "calls (trace (loop T S pf r a req w)) = (rq, Some rs, None) # rest"
    and "StatusCode rs < 500"
  shows "result (loop T S pf r a req w) = Resp rs \<and> rest = []"
proof (cases "a \<le> MaxRetries r")
  case False
  with assms show ?thesis by (simp add: loop.simps)
next
  case le: True
  obtain eo req1 w1 evs1 where rg: "regenerate req w = (eo, req1, w1, evs1)"
    by (cases "regenerate req w") auto
  show ?thesis
  proof (cases eo)
    case (Some e)
    with rg le assms regenerate_calls [OF rg] show ?thesis
      by (simp add: loop.simps iteration_regen_fail)
  next
    case None
    obtain resp err w2 where tr: "T req1 w1 = ((resp, err), w2)"
      by (cases "T req1 w1") auto
    obtain st w3 evs3 where hd: "handle S pf r a req1 w2 resp err = (st, w3, evs3)"
      by (cases "handle S pf r a req1 w2 resp err") auto
    have it: "iteration T S pf r a req w = (st, req1, w3, evs1 @ EvRoundTrip req1 resp err # evs3)"
      using rg None tr hd by (simp add: iteration_regen_ok)
    have c1: "calls evs1 = []" using rg by (rule regenerate_calls)
    have c3: "calls evs3 = []" using hd by (rule handle_calls)
    have first: "resp = Some rs \<and> err = None"
      using assms(1) le it c1 c3 by (cases st) (simp_all add: loop.simps Let_def)
    with hd assms(2) have "st = Return (Resp rs)"
      by (simp add: handle_below_500)
    with assms(1) le it c1 c3 show ?thesis
      by (simp add: loop.simps)
  qed
qed

text \<open>
  Claim C3. Whatever the retry ceiling, when the first invocation of the underlying
  transport made by \<^verbatim>\<open>RoundTrip\<close> comes back with no transport error and a response
  whose status code is below 500 (a 4xx such as 400 or 429 included), \<^verbatim>\<open>RoundTrip\<close>
  returns that very response with no error, and that invocation is the only one.
\<close>

theorem RoundTrip_below_500_returned_at_once:
  assumes "calls (trace (RoundTrip pf r req w)) = (rq, Some rs, None) # rest"
    and "StatusCode rs < 500"
  shows "result (RoundTrip pf r req w) = Resp rs
         \<and> invocations (trace (RoundTrip pf r req w)) = 1"
  using loop_first_call [of "transport_of pf r" "strategy_of r" pf r 0 req w rq rs rest] assms
  by (simp add: RoundTrip_def invocations_def)

theorem RoundTrip_below_500_returned_at_once_witness:
  "calls (trace (RoundTrip test_platform (retrier (reply 400 (nop_closer ''Bad Request'')) 3)
       get_request start))
     = (get_request, Some \<lparr>StatusCode = 400, RespHeader = [],
          RespBody = nop_closer ''Bad Request''\<rparr>, None) # []
   \<and> StatusCode \<lparr>StatusCode = 400, RespHeader = [], RespBody = nop_closer ''Bad Request''\<rparr> < 500
   \<and> result (RoundTrip test_platform (retrier (reply 400 (nop_closer ''Bad Request'')) 3)
        get_request start)
       = Resp \<lparr>StatusCode = 400, RespHeader = [], RespBody = nop_closer ''Bad Request''\<rparr>
   \<and> invocations (trace (RoundTrip test_platform
        (retrier (reply 400 (nop_closer ''Bad Request'')) 3) get_request start)) = 1"
proof -
  have h1: "calls (trace (RoundTrip test_platform
        (retrier (reply 400 (nop_closer ''Bad Request'')) 3) get_request start))
     = (get_request, Some \<lparr>StatusCode = 400, RespHeader = [],
          RespBody = nop_closer ''Bad Request''\<rparr>, None) # []"
    by (simp add: scenario_defs)
  have h2: "StatusCode \<lparr>StatusCode = 400, RespHeader = [],
      RespBody = nop_closer ''Bad Request''\<rparr> < 500"
    by simp
  from RoundTrip_below_500_returned_at_once [OF h1 h2] h1 h2 show ?thesis
    by blast
qed

subsection \<open>Only the body of the request changes\<close>

lemma regenerate_frame:
  "regenerate req w = (eo, req1, w1, evs1) \<Longrightarrow> req1 = req\<lparr>Body := Body req1\<rparr>"
  by (auto simp: regenerate_def split: option.splits prod.splits)

lemma iteration_frame:
  assumes "iteration T S pf r a req w = (st, req', w', evs)"
  shows "req' = req\<lparr>Body := Body req'\<rparr> \<and> (\<forall>c\<in>set (calls evs). fst c = req')"
  using assms
proof (cases rule: iteration_cases)
  case (fail e)
  then show ?thesis using regenerate_frame regenerate_calls by fastforce
next
  case (call w1 evs1 resp err w2 evs3)
  then show ?thesis
    using regenerate_frame [OF call(1)] regenerate_calls [OF call(1)] handle_calls [OF call(3)]
    by simp
qed

lemma loop_frame:
  "request (loop T S pf r a req w) = req\<lparr>Body := Body (request (loop T S pf r a req w))\<rparr>
   \<and> (\<forall>c\<in>set (calls (trace (loop T S pf r a req w))). fst c = req\<lparr>Body := Body (fst c)\<rparr>)"
proof (induction "nat (MaxRetries r + 1 - a)" arbitrary: a req w)
  case 0
  then have "\<not> a \<le> MaxRetries r" by simp
  then show ?case by (simp add: loop_stop)
next
  case (Suc n)
  show ?case
  proof (cases rule: loop_cases [of a r T S pf req w])
    case stop
    then show ?thesis by simp
  next
    case (return res req' w' evs)
    with iteration_frame [OF return(2)] show ?thesis by auto
  next
    case (continue req' w' evs)
    have n: "n = nat (MaxRetries r + 1 - (a + 1))" using Suc(2) by simp
    note ih = Suc(1) [OF n, of req' w']
    have fr: "req' = req\<lparr>Body := Body req'\<rparr>" and cs: "\<forall>c\<in>set (calls evs). fst c = req'"
      using iteration_frame [OF continue(2)] by simp_all
    have eq: "\<And>b. req'\<lparr>Body := b\<rparr> = req\<lparr>Body := b\<rparr>"
      by (subst fr) simp
    show ?thesis
      using ih cs fr by (auto simp: continue(3) eq)
  qed
qed

text \<open>
  Claim C9. Across the retry loop \<^verbatim>\<open>RoundTrip\<close> assigns to no field of the request other
  than its body: the request it leaves behind, and every request it hands to the
  underlying transport, is the caller's request with at most the body replaced, so
  method, target address and headers are unchanged. (The underlying transport receives
  the request as a value: the \<^verbatim>\<open>http.RoundTripper\<close> contract forbids it to modify the
  request.)
\<close>

theorem RoundTrip_changes_only_body:
  "request (RoundTrip pf r req w) = req\<lparr>Body := Body (request (RoundTrip pf r req w))\<rparr>
   \<and> Method (request (RoundTrip pf r req w)) = Method req
   \<and> URL (request (RoundTrip pf r req w)) = URL req
   \<and> Header (request (RoundTrip pf r req w)) = Header req
   \<and> (\<forall>c\<in>set (calls (trace (RoundTrip pf r req w))). fst c = req\<lparr>Body := Body (fst c)\<rparr>)"
proof -
  let ?out = "loop (transport_of pf r) (strategy_of r) pf r 0 req w"
  have fr: "request ?out = req\<lparr>Body := Body (request ?out)\<rparr>"
    and cs: "\<forall>c\<in>set (calls (trace ?out)). fst c = req\<lparr>Body := Body (fst c)\<rparr>"
    using loop_frame [of "transport_of pf r" "strategy_of r" pf r 0 req w] by simp_all
  have "Method (request ?out) = Method req" "URL (request ?out) = URL req"
    "Header (request ?out) = Header req"
    by (subst fr, simp)+
  with fr cs show ?thesis
    unfolding RoundTrip_def by blast
qed

theorem RoundTrip_changes_only_body_witness:
  "(post_request (Some (failing_from 5)),
    Some \<lparr>StatusCode = 500, RespHeader = [], RespBody = nop_closer ''Fail''\<rparr>, None)
     \<in> set (calls (trace (RoundTrip test_platform (retrier (reply 500 (nop_closer ''Fail'')) 1)
          ((post_request (Some (failing_from 5)))\<lparr>Body := Some ''stale''\<rparr>) start)))
   \<and> post_request (Some (failing_from 5)) =
       ((post_request (Some (failing_from 5)))\<lparr>Body := Some ''stale''\<rparr>)
         \<lparr>Body := Some ''Request Body Content''\<rparr>"
proof -
  have h: "(post_request (Some (failing_from 5)),
      Some \<lparr>StatusCode = 500, RespHeader = [], RespBody = nop_closer ''Fail''\<rparr>, None)
     \<in> set (calls (trace (RoundTrip test_platform (retrier (reply 500 (nop_closer ''Fail'')) 1)
          ((post_request (Some (failing_from 5)))\<lparr>Body := Some ''stale''\<rparr>) start)))"
    by (simp add: scenario_defs)
  have b: "Body (post_request (Some (failing_from 5))) = Some ''Request Body Content''"
    by (simp add: post_request_def)
  have all: "\<forall>c\<in>set (calls (trace (RoundTrip test_platform
        (retrier (reply 500 (nop_closer ''Fail'')) 1)
        ((post_request (Some (failing_from 5)))\<lparr>Body := Some ''stale''\<rparr>) start))).
      fst c = ((post_request (Some (failing_from 5)))\<lparr>Body := Some ''stale''\<rparr>)
                \<lparr>Body := Body (fst c)\<rparr>"
    using RoundTrip_changes_only_body [of test_platform
        "retrier (reply 500 (nop_closer ''Fail'')) 1"
        "(post_request (Some (failing_from 5)))\<lparr>Body := Some ''stale''\<rparr>" start]
    by blast
  from all [rule_format, OF h]
  have "post_request (Some (failing_from 5)) =
       ((post_request (Some (failing_from 5)))\<lparr>Body := Some ''stale''\<rparr>)
         \<lparr>Body := Some ''Request Body Content''\<rparr>"
    by (simp add: b)
  with h show ?thesis by blast
qed

subsection \<open>The body is regenerated before every attempt, the first included\<close>

text \<open>
  Claim C10. For a request with a body and a \<^verbatim>\<open>GetBody\<close>, and a retry ceiling that is
  not negative, the first thing \<^verbatim>\<open>RoundTrip\<close> does is call \<^verbatim>\<open>GetBody\<close>. If that call
  fails, \<^verbatim>\<open>RoundTrip\<close> returns the error wrapping the failure and the underlying
  transport is never invoked. If it succeeds, the first invocation of the underlying
  transport receives the request with the regenerated body in place.
\<close>

theorem RoundTrip_regenerates_before_first_attempt:
  assumes "Body req = Some b" and "GetBody req = Some g" and "0 \<le> MaxRetries r"
    and "g w = ((bodyClone, eo), w1)"
  shows "(\<forall>e. eo = Some e \<longrightarrow>
            result (RoundTrip pf r req w)
              = Err (Errorf_w ''failed to get request body for retry: '' e)
            \<and> trace (RoundTrip pf r req w) = [EvGetBody bodyClone (Some e)]
            \<and> invocations (trace (RoundTrip pf r req w)) = 0)
       \<and> (eo = None \<longrightarrow>
            (\<exists>resp err rest.
               fst (transport_of pf r (req\<lparr>Body := bodyClone\<rparr>) w1) = (resp, err)
               \<and> trace (RoundTrip pf r req w)
                   = EvGetBody bodyClone None
                     # EvRoundTrip (req\<lparr>Body := bodyClone\<rparr>) resp err # rest))"
proof (intro conjI allI impI)
  fix e assume e: "eo = Some e"
  have rg: "regenerate req w
      = (Some (Errorf_w ''failed to get request body for retry: '' e), req, w1,
         [EvGetBody bodyClone (Some e)])"
    using assms e by (simp add: regenerate_def)
  have "loop (transport_of pf r) (strategy_of r) pf r 0 req w
      = \<lparr>result = Err (Errorf_w ''failed to get request body for retry: '' e), request = req,
         world = w1, trace = [EvGetBody bodyClone (Some e)]\<rparr>"
    using assms(3) iteration_regen_fail [OF rg] by (rule loop_Return)
  then show "result (RoundTrip pf r req w)
      = Err (Errorf_w ''failed to get request body for retry: '' e)"
    and "trace (RoundTrip pf r req w) = [EvGetBody bodyClone (Some e)]"
    and "invocations (trace (RoundTrip pf r req w)) = 0"
    by (simp_all add: RoundTrip_def invocations_def)
next
  assume n: "eo = None"
  let ?T = "transport_of pf r" and ?rq = "req\<lparr>Body := bodyClone\<rparr>"
  have rg: "regenerate req w = (None, ?rq, w1, [EvGetBody bodyClone None])"
    using assms n by (simp add: regenerate_def)
  obtain resp err w2 where tr: "?T ?rq w1 = ((resp, err), w2)"
    by (cases "?T ?rq w1") auto
  obtain st w3 evs3 where hd: "handle (strategy_of r) pf r 0 ?rq w2 resp err = (st, w3, evs3)"
    by (cases "handle (strategy_of r) pf r 0 ?rq w2 resp err") auto
  have it: "iteration ?T (strategy_of r) pf r 0 req w
      = (st, ?rq, w3, [EvGetBody bodyClone None] @ EvRoundTrip ?rq resp err # evs3)"
    using rg tr hd by (rule iteration_regen_ok)
  have "\<exists>rest. trace (loop ?T (strategy_of r) pf r 0 req w)
      = EvGetBody bodyClone None # EvRoundTrip ?rq resp err # rest"
  proof (cases st)
    case (Return res)
    with loop_Return [OF assms(3) it [unfolded Return]] show ?thesis by simp
  next
    case Continue
    with loop_Continue [OF assms(3) it [unfolded Continue]] show ?thesis by simp
  qed
  with tr show "\<exists>resp err rest.
       fst (?T ?rq w1) = (resp, err)
       \<and> trace (RoundTrip pf r req w)
           = EvGetBody bodyClone None # EvRoundTrip ?rq resp err # rest"
    by (simp add: RoundTrip_def)
qed

theorem RoundTrip_regenerates_before_first_attempt_witness:
  "Body (post_request (Some (failing_from 0))) = Some ''Request Body Content''
   \<and> GetBody (post_request (Some (failing_from 0))) = Some (failing_from 0)
   \<and> 0 \<le> MaxRetries (retrier (reply 200 (nop_closer ''OK'')) 1)
   \<and> failing_from 0 start = ((None, Some getBodyError), start\<lparr>getBodyAttempts := 1\<rparr>)
   \<and> result (RoundTrip test_platform (retrier (reply 200 (nop_closer ''OK'')) 1)
        (post_request (Some (failing_from 0))) start)
       = Err (Errorf_w ''failed to get request body for retry: '' getBodyError)
   \<and> invocations (trace (RoundTrip test_platform (retrier (reply 200 (nop_closer ''OK'')) 1)
        (post_request (Some (failing_from 0))) start)) = 0"
proof -
  have h1: "Body (post_request (Some (failing_from 0))) = Some ''Request Body Content''"
    by (simp add: post_request_def)
  have h2: "GetBody (post_request (Some (failing_from 0))) = Some (failing_from 0)"
    by (simp add: post_request_def)
  have h3: "0 \<le> MaxRetries (retrier (reply 200 (nop_closer ''OK'')) 1)"
    by (simp add: retrier_def)
  have h4: "failing_from 0 start = ((None, Some getBodyError), start\<lparr>getBodyAttempts := 1\<rparr>)"
    by (simp add: failing_from_def start_def)
  from RoundTrip_regenerates_before_first_attempt [OF h1 h2 h3 h4, of test_platform]
  have "result (RoundTrip test_platform (retrier (reply 200 (nop_closer ''OK'')) 1)
        (post_request (Some (failing_from 0))) start)
       = Err (Errorf_w ''failed to get request body for retry: '' getBodyError)
   \<and> invocations (trace (RoundTrip test_platform (retrier (reply 200 (nop_closer ''OK'')) 1)
        (post_request (Some (failing_from 0))) start)) = 0"
    by blast
  with h1 h2 h3 h4 show ?thesis by blast
qed

subsection \<open>A discarded response is drained and closed\<close>

lemma split_in_tail:
  "calls a = [] \<Longrightarrow> a @ t = pre @ EvRoundTrip y1 y2 y3 # post \<Longrightarrow>
   \<exists>m. pre = a @ m \<and> t = m @ EvRoundTrip y1 y2 y3 # post"
proof (induction a arbitrary: pre)
  case Nil
  then show ?case by simp
next
  case (Cons e a)
  show ?case
  proof (cases pre)
    case Nil
    with Cons.prems show ?thesis by simp
  next
    case (Cons p ps)
    with Cons.prems have "calls a = []" and "a @ t = ps @ EvRoundTrip y1 y2 y3 # post" and "p = e"
      by (cases e; simp)+
    with Cons.IH [of ps] Cons show ?thesis by simp
  qed
qed

lemma handle_retryable:
  assumes "handle S pf r a req w (Some rs) err = (st, w', evs)"
    and "err \<noteq> None \<or> 500 \<le> StatusCode rs"
  shows "\<exists>tl. evs = EvDrain (RespBody rs) # EvClose (RespBody rs) # tl \<and> calls tl = []
      \<and> (\<forall>e. drainErr (RespBody rs) = Some e \<longrightarrow>
             tl = [] \<and> st = Return (Err (Errorf_w ''failed to discard response body: '' e)))
      \<and> (\<forall>e. drainErr (RespBody rs) = None \<and> closeErr (RespBody rs) = Some e \<longrightarrow>
             tl = [] \<and> st = Return (Err (Errorf_w ''failed to close response body: '' e)))"
  using assms
  by (auto simp: handle_def after_failure_def discard_def Let_def StatusInternalServerError_def
      split: option.splits if_splits)

lemma iteration_split:
  assumes it: "iteration T S pf r a req w = (st, req', w', evs)"
    and eq: "evs @ t = pre @ EvRoundTrip rq (Some rs) err # post"
    and rt: "err \<noteq> None \<or> 500 \<le> StatusCode rs"
  shows "(\<exists>tl. post = EvDrain (RespBody rs) # EvClose (RespBody rs) # tl @ t
           \<and> (\<forall>e. drainErr (RespBody rs) = Some e \<longrightarrow>
                 tl = [] \<and> st = Return (Err (Errorf_w ''failed to discard response body: '' e)))
           \<and> (\<forall>e. drainErr (RespBody rs) = None \<and> closeErr (RespBody rs) = Some e \<longrightarrow>
                 tl = [] \<and> st = Return (Err (Errorf_w ''failed to close response body: '' e))))
       \<or> (\<exists>m. t = m @ EvRoundTrip rq (Some rs) err # post)"
  using it
proof (cases rule: iteration_cases)
  case (fail e)
  from fail(1) have "calls evs = []" by (rule regenerate_calls)
  from split_in_tail [OF this eq] show ?thesis by blast
next
  case (call w1 evs1 resp err0 w2 evs3)
  have c1: "calls evs1 = []" using call(1) by (rule regenerate_calls)
  have c3: "calls evs3 = []" using call(3) by (rule handle_calls)
  from eq call(4) have "evs1 @ (EvRoundTrip req' resp err0 # evs3 @ t)
      = pre @ EvRoundTrip rq (Some rs) err # post" by simp
  from split_in_tail [OF c1 this] obtain m where
    m: "EvRoundTrip req' resp err0 # evs3 @ t = m @ EvRoundTrip rq (Some rs) err # post"
    by blast
  show ?thesis
  proof (cases m)
    case Nil
    with m have same: "resp = Some rs" "err0 = err" and post: "post = evs3 @ t" by simp_all
    from handle_retryable [OF call(3) [unfolded same] rt] post show ?thesis by auto
  next
    case (Cons z m')
    with m have "evs3 @ t = m' @ EvRoundTrip rq (Some rs) err # post" by simp
    from split_in_tail [OF c3 this] show ?thesis by blast
  qed
qed

lemma loop_drains_and_closes:
  assumes "trace (loop T S pf r a req w) = pre @ EvRoundTrip rq (Some rs) err # post"
    and "err \<noteq> None \<or> 500 \<le> StatusCode rs"
  shows "\<exists>post'. post = EvDrain (RespBody rs) # EvClose (RespBody rs) # post'
      \<and> (\<forall>e. drainErr (RespBody rs) = Some e \<longrightarrow>
             post' = [] \<and> result (loop T S pf r a req w)
               = Err (Errorf_w ''failed to discard response body: '' e))
      \<and> (\<forall>e. drainErr (RespBody rs) = None \<and> closeErr (RespBody rs) = Some e \<longrightarrow>
             post' = [] \<and> result (loop T S pf r a req w)
               = Err (Errorf_w ''failed to close response body: '' e))"
  using assms(1)
proof (induction "nat (MaxRetries r + 1 - a)" arbitrary: a req w pre)
  case 0
  then have "\<not> a \<le> MaxRetries r" by simp
  with 0 show ?case by (simp add: loop_stop)
next
  case (Suc n)
  show ?case
  proof (cases rule: loop_cases [of a r T S pf req w])
    case stop
    with Suc.prems show ?thesis by simp
  next
    case (return res req' w' evs)
    with Suc.prems have "evs @ [] = pre @ EvRoundTrip rq (Some rs) err # post" by simp
    from iteration_split [OF return(2) this assms(2)] show ?thesis
      by (auto simp: return(3))
  next
    case (continue req' w' evs)
    let ?out = "loop T S pf r (a + 1) req' w'"
    have n: "n = nat (MaxRetries r + 1 - (a + 1))" using Suc(2) by simp
    from Suc.prems continue(3)
    have "evs @ trace ?out = pre @ EvRoundTrip rq (Some rs) err # post" by simp
    from iteration_split [OF continue(2) this assms(2)]
    show ?thesis
    proof
      assume "\<exists>tl. post = EvDrain (RespBody rs) # EvClose (RespBody rs) # tl @ trace ?out
           \<and> (\<forall>e. drainErr (RespBody rs) = Some e \<longrightarrow>
                 tl = [] \<and> Continue = Return (Err (Errorf_w ''failed to discard response body: '' e)))
           \<and> (\<forall>e. drainErr (RespBody rs) = None \<and> closeErr (RespBody rs) = Some e \<longrightarrow>
                 tl = [] \<and> Continue = Return (Err (Errorf_w ''failed to close response body: '' e)))"
      then show ?thesis by auto
    next
      assume "\<exists>m. trace ?out = m @ EvRoundTrip rq (Some rs) err # post"
      then obtain m where "trace ?out = m @ EvRoundTrip rq (Some rs) err # post" ..
      from Suc(1) [OF n this] show ?thesis by (simp add: continue(3))
    qed
  qed
qed

text \<open>
  Claim C8. Whenever an invocation of the underlying transport comes back with a
  response and the outcome is retryable (a transport error, or a status of 500 or more),
  the next two effects of \<^verbatim>\<open>RoundTrip\<close> are draining that response's body and closing it.
  If draining fails, nothing follows: \<^verbatim>\<open>RoundTrip\<close> returns the error
  "failed to discard response body" wrapping the drain failure, whether or not closing
  failed too. If draining succeeds and closing fails, nothing follows either, and the
  error is "failed to close response body" wrapping the close failure.
\<close>

theorem RoundTrip_drains_and_closes:
  assumes "trace (RoundTrip pf r req w) = pre @ EvRoundTrip rq (Some rs) err # post"
    and "err \<noteq> None \<or> 500 \<le> StatusCode rs"
  shows "\<exists>post'. post = EvDrain (RespBody rs) # EvClose (RespBody rs) # post'
      \<and> (\<forall>e. drainErr (RespBody rs) = Some e \<longrightarrow>
             post' = [] \<and> result (RoundTrip pf r req w)
               = Err (Errorf_w ''failed to discard response body: '' e))
      \<and> (\<forall>e. drainErr (RespBody rs) = None \<and> closeErr (RespBody rs) = Some e \<longrightarrow>
             post' = [] \<and> result (RoundTrip pf r req w)
               = Err (Errorf_w ''failed to close response body: '' e))"
  using assms unfolding RoundTrip_def by (rule loop_drains_and_closes)

theorem RoundTrip_drains_and_closes_witness:
  "trace (RoundTrip test_platform
       (retrier (reply 500 (errorReaderCloser (Some simulatedReadError)
          (Some simulatedCloseError) ''some data'')) 1) get_request start)
     = [] @ EvRoundTrip get_request
         (Some \<lparr>StatusCode = 500, RespHeader = [],
            RespBody = errorReaderCloser (Some simulatedReadError) (Some simulatedCloseError)
              ''some data''\<rparr>) None
       # [EvDrain (errorReaderCloser (Some simulatedReadError) (Some simulatedCloseError)
            ''some data''),
          EvClose (errorReaderCloser (Some simulatedReadError) (Some simulatedCloseError)
            ''some data'')]
   \<and> 500 \<le> StatusCode \<lparr>StatusCode = 500, RespHeader = [],
            RespBody = errorReaderCloser (Some simulatedReadError) (Some simulatedCloseError)
              ''some data''\<rparr>
   \<and> result (RoundTrip test_platform
       (retrier (reply 500 (errorReaderCloser (Some simulatedReadError)
          (Some simulatedCloseError) ''some data'')) 1) get_request start)
     = Err (Errorf_w ''failed to discard response body: '' simulatedReadError)"
proof -
  let ?b = "errorReaderCloser (Some simulatedReadError) (Some simulatedCloseError) ''some data''"
  let ?rs = "\<lparr>StatusCode = 500, RespHeader = [], RespBody = ?b\<rparr>"
  let ?out = "RoundTrip test_platform (retrier (reply 500 ?b) 1) get_request start"
  have h1: "trace ?out = [] @ EvRoundTrip get_request (Some ?rs) None # [EvDrain ?b, EvClose ?b]"
    by (simp add: scenario_defs)
  have h2: "500 \<le> StatusCode ?rs"
    by simp
  have d: "drainErr (RespBody ?rs) = Some simulatedReadError"
    by (simp add: errorReaderCloser_def)
  from RoundTrip_drains_and_closes [OF h1 disjI2 [OF h2]] d
  have "result ?out = Err (Errorf_w ''failed to discard response body: '' simulatedReadError)"
    by blast
  with h1 h2 show ?thesis by blast
qed

subsection \<open>Counting invocations; the error after the last attempt\<close>

lemma handle_gives_up:
  "retryable resp err \<Longrightarrow> discards_cleanly resp \<Longrightarrow> \<not> a < MaxRetries r \<Longrightarrow>
   fst (handle S pf r a req w resp err) = Return (Err (exhausted resp err))"
  by (auto simp: retryable_def discards_cleanly_def handle_def after_failure_def discard_def
      Let_def split: option.splits)

lemma handle_goes_on:
  "retryable resp err \<Longrightarrow> discards_cleanly resp \<Longrightarrow> a < MaxRetries r \<Longrightarrow>
   fst (handle S pf r a req w resp err) = Continue"
  by (auto simp: retryable_def discards_cleanly_def handle_def after_failure_def discard_def
      Let_def split: option.splits)

lemma handle_Continue:
  "handle S pf r a req w resp err = (Continue, w', evs) \<Longrightarrow> a < MaxRetries r"
  by (auto simp: handle_def after_failure_def discard_def Let_def
      split: option.splits if_splits)

lemma iteration_Continue:
  assumes "iteration T S pf r a req w = (Continue, req', w', evs)"
  shows "a < MaxRetries r \<and> (\<exists>resp err. calls evs = [(req', resp, err)])"
  using assms
proof (cases rule: iteration_cases)
  case (fail e)
  then show ?thesis by simp
next
  case (call w1 evs1 resp err w2 evs3)
  from call(1) have "calls evs1 = []" by (rule regenerate_calls)
  moreover from call(3) have "calls evs3 = []" by (rule handle_calls)
  moreover from call(3) have "a < MaxRetries r" by (rule handle_Continue)
  ultimately show ?thesis using call(4) by simp
qed

lemma iteration_Return:
  assumes "iteration T S pf r a req w = (Return res, req', w', evs)"
  shows "calls evs = [] \<or>
    (\<exists>resp err. calls evs = [(req', resp, err)] \<and>
       (retryable resp err \<longrightarrow> discards_cleanly resp \<longrightarrow>
          \<not> a < MaxRetries r \<and> res = Err (exhausted resp err)))"
  using assms
proof (cases rule: iteration_cases)
  case (fail e)
  from fail(1) have "calls evs = []" by (rule regenerate_calls)
  then show ?thesis ..
next
  case (call w1 evs1 resp err w2 evs3)
  from call(1) have c1: "calls evs1 = []" by (rule regenerate_calls)
  from call(3) have c3: "calls evs3 = []" by (rule handle_calls)
  have "\<not> a < MaxRetries r \<and> res = Err (exhausted resp err)"
    if "retryable resp err" "discards_cleanly resp"
  proof (cases "a < MaxRetries r")
    case True
    from handle_goes_on [OF that True, of S pf req' w2] call(3) show ?thesis by simp
  next
    case False
    from handle_gives_up [OF that False, of S pf req' w2] call(3) False show ?thesis by simp
  qed
  with c1 c3 call(4) show ?thesis by simp
qed

lemma loop_invocations_le:
  "invocations (trace (loop T S pf r a req w)) \<le> nat (MaxRetries r + 1 - a)"
proof (induction "nat (MaxRetries r + 1 - a)" arbitrary: a req w)
  case 0
  then have "\<not> a \<le> MaxRetries r" by simp
  then show ?case by (simp add: loop_stop invocations_def)
next
  case (Suc n)
  show ?case
  proof (cases rule: loop_cases [of a r T S pf req w])
    case stop
    then show ?thesis by (simp add: invocations_def)
  next
    case (return res req' w' evs)
    from iteration_Return [OF return(2)] have "length (calls evs) \<le> 1" by auto
    with return(1,3) show ?thesis by (simp add: invocations_def)
  next
    case (continue req' w' evs)
    have n: "n = nat (MaxRetries r + 1 - (a + 1))" using Suc(2) by simp
    from iteration_Continue [OF continue(2)] have "length (calls evs) = 1" by auto
    with Suc(1) [OF n, of req' w'] continue(1,3) show ?thesis
      by (simp add: invocations_def)
  qed
qed

lemma loop_exhausted:
  assumes "invocations (trace (loop T S pf r a req w)) = nat (MaxRetries r + 1 - a)"
    and "a \<le> MaxRetries r"
    and "last (calls (trace (loop T S pf r a req w))) = (rq, resp, err)"
    and "retryable resp err" and "discards_cleanly resp"
  shows "result (loop T S pf r a req w) = Err (exhausted resp err)"
  using assms(1,2,3)
proof (induction "nat (MaxRetries r + 1 - a)" arbitrary: a req w)
  case 0
  then show ?case by simp
next
  case (Suc n)
  show ?case
  proof (cases rule: loop_cases [of a r T S pf req w])
    case stop
    with Suc.prems show ?thesis by simp
  next
    case (return res req' w' evs)
    from Suc.prems(1,2) return(3) have "calls evs \<noteq> []"
      by (auto simp: invocations_def)
    with iteration_Return [OF return(2)] obtain resp0 err0 where
      c: "calls evs = [(req', resp0, err0)]" and
      x: "retryable resp0 err0 \<longrightarrow> discards_cleanly resp0 \<longrightarrow> res = Err (exhausted resp0 err0)"
      by auto
    from Suc.prems(3) return(3) c have "resp0 = resp" "err0 = err" by simp_all
    with x assms(4,5) return(3) show ?thesis by simp
  next
    case (continue req' w' evs)
    let ?out = "loop T S pf r (a + 1) req' w'"
    have n: "n = nat (MaxRetries r + 1 - (a + 1))" using Suc(2) by simp
    from iteration_Continue [OF continue(2)] obtain resp0 err0 where
      lt: "a < MaxRetries r" and c: "calls evs = [(req', resp0, err0)]" by auto
    from Suc.prems(1) continue(3) c lt
    have inv: "invocations (trace ?out) = nat (MaxRetries r + 1 - (a + 1))"
      by (simp add: invocations_def)
    with lt have "calls (trace ?out) \<noteq> []" by (auto simp: invocations_def)
    with Suc.prems(3) continue(3) have "last (calls (trace ?out)) = (rq, resp, err)"
      by simp
    from Suc(1) [OF n inv _ this] lt show ?thesis by (simp add: continue(3))
  qed
qed

lemma errors_Is_refl: "errors_Is e e"
  by (cases e) simp_all

lemma regenerate_ok:
  assumes "\<forall>g w'. GetBody req = Some g \<longrightarrow> snd (fst (g w')) = None"
  shows "fst (regenerate req w) = None"
proof (cases "GetBody req")
  case None
  then show ?thesis by (simp add: regenerate_def split: option.splits)
next
  case (Some g)
  with assms have "snd (fst (g w)) = None" by simp
  with Some show ?thesis
    by (cases "g w") (auto simp: regenerate_def split: option.splits)
qed

lemma regenerate_GetBody:
  "regenerate req w = (eo, req1, w1, evs1) \<Longrightarrow> GetBody req1 = GetBody req"
  by (auto simp: regenerate_def split: option.splits prod.splits)

lemma loop_always_retryable:
  assumes gb: "\<forall>g w'. GetBody req = Some g \<longrightarrow> snd (fst (g w')) = None"
    and tr: "\<forall>rq w'. retryable (fst (fst (T rq w'))) (snd (fst (T rq w')))
                \<and> discards_cleanly (fst (fst (T rq w')))"
    and le: "a \<le> MaxRetries r"
  shows "invocations (trace (loop T S pf r a req w)) = nat (MaxRetries r + 1 - a)
         \<and> (\<exists>e. result (loop T S pf r a req w) = Err e)"
  using gb le
proof (induction "nat (MaxRetries r + 1 - a)" arbitrary: a req w)
  case 0
  then show ?case by simp
next
  case (Suc n)
  obtain eo req1 w1 evs1 where rg: "regenerate req w = (eo, req1, w1, evs1)"
    by (cases "regenerate req w") auto
  with regenerate_ok [OF Suc.prems(1), of w] have eo: "eo = None" by simp
  obtain resp err w2 where t: "T req1 w1 = ((resp, err), w2)"
    by (cases "T req1 w1") auto
  with tr [rule_format, of req1 w1] have re: "retryable resp err" and cl: "discards_cleanly resp"
    by simp_all
  obtain st w3 evs3 where hd: "handle S pf r a req1 w2 resp err = (st, w3, evs3)"
    by (cases "handle S pf r a req1 w2 resp err") auto
  have it: "iteration T S pf r a req w = (st, req1, w3, evs1 @ EvRoundTrip req1 resp err # evs3)"
    using rg [unfolded eo] t hd by (rule iteration_regen_ok)
  have c1: "calls evs1 = []" using rg by (rule regenerate_calls)
  have c3: "calls evs3 = []" using hd by (rule handle_calls)
  show ?case
  proof (cases "a < MaxRetries r")
    case True
    from handle_goes_on [OF re cl True, of S pf req1 w2] hd have st: "st = Continue" by simp
    have n: "n = nat (MaxRetries r + 1 - (a + 1))" using Suc(2) by simp
    have gb1: "\<forall>g w'. GetBody req1 = Some g \<longrightarrow> snd (fst (g w')) = None"
      using Suc.prems(1) regenerate_GetBody [OF rg] by simp
    from Suc(1) [OF n gb1, of w3] True
    have ih: "invocations (trace (loop T S pf r (a + 1) req1 w3)) = nat (MaxRetries r + 1 - (a + 1))
         \<and> (\<exists>e. result (loop T S pf r (a + 1) req1 w3) = Err e)" by simp
    from loop_Continue [OF Suc.prems(2) it [unfolded st]] ih c1 c3 True show ?thesis
      by (simp add: invocations_def)
  next
    case False
    from handle_gives_up [OF re cl False, of S pf req1 w2] hd
    have st: "st = Return (Err (exhausted resp err))" by simp
    from loop_Return [OF Suc.prems(2) it [unfolded st]] c1 c3 False Suc.prems(2) show ?thesis
      by (simp add: invocations_def)
  qed
qed

lemma loop_no_invocation:
  assumes "a \<le> MaxRetries r"
  shows "invocations (trace (loop T S pf r a req w)) = 0 \<longleftrightarrow> fst (regenerate req w) \<noteq> None"
proof -
  obtain eo req1 w1 evs1 where rg: "regenerate req w = (eo, req1, w1, evs1)"
    by (cases "regenerate req w") auto
  show ?thesis
  proof (cases eo)
    case (Some e)
    from loop_Return [OF assms iteration_regen_fail [OF rg [unfolded Some]]]
      regenerate_calls [OF rg] rg Some
    show ?thesis by (simp add: invocations_def)
  next
    case None
    obtain resp err w2 where t: "T req1 w1 = ((resp, err), w2)"
      by (cases "T req1 w1") auto
    obtain st w3 evs3 where hd: "handle S pf r a req1 w2 resp err = (st, w3, evs3)"
      by (cases "handle S pf r a req1 w2 resp err") auto
    have it: "iteration T S pf r a req w = (st, req1, w3, evs1 @ EvRoundTrip req1 resp err # evs3)"
      using rg [unfolded None] t hd by (rule iteration_regen_ok)
    have "invocations (trace (loop T S pf r a req w)) \<noteq> 0"
    proof (cases st)
      case (Return res)
      from loop_Return [OF assms it [unfolded Return]] show ?thesis
        by (simp add: invocations_def)
    next
      case Continue
      from loop_Continue [OF assms it [unfolded Continue]] show ?thesis
        by (simp add: invocations_def)
    qed
    with rg None show ?thesis by simp
  qed
qed

lemma regenerate_fails_iff:
  "fst (regenerate req w) \<noteq> None
   \<longleftrightarrow> (\<exists>b g. Body req = Some b \<and> GetBody req = Some g \<and> snd (fst (g w)) \<noteq> None)"
proof (cases "Body req")
  case None
  then show ?thesis by (simp add: regenerate_def)
next
  case b: (Some b)
  show ?thesis
  proof (cases "GetBody req")
    case None
    with b show ?thesis by (simp add: regenerate_def)
  next
    case (Some g)
    with b show ?thesis
      by (cases "g w") (auto simp: regenerate_def split: option.splits)
  qed
qed

text \<open>
  Claim C1, as the code has it. When the retry budget is exhausted (all
  \<open>MaxRetries + 1\<close> invocations were made and the last one failed in a retryable way,
  its response, if any, drained and closed): after a transport error \<^verbatim>\<open>RoundTrip\<close>
  returns "all retries failed; last error: ..." wrapping that error, which matches
  \<^verbatim>\<open>ErrAllRetriesFailed\<close> exactly when the transport error itself does; after a
  response of 500 or more without a transport error it returns an error that wraps
  \<^verbatim>\<open>ErrAllRetriesFailed\<close> and whose text ends with the status code.
\<close>

theorem RoundTrip_exhausted_error:
  assumes "0 \<le> MaxRetries r"
    and "invocations (trace (RoundTrip pf r req w)) = nat (MaxRetries r) + 1"
    and "last (calls (trace (RoundTrip pf r req w))) = (rq, resp, err)"
    and "retryable resp err" and "discards_cleanly resp"
  shows "(\<forall>e. err = Some e \<longrightarrow>
            result (RoundTrip pf r req w) = Err (Errorf_w ''all retries failed; last error: '' e)
            \<and> Unwrap (Errorf_w ''all retries failed; last error: '' e) = Some e
            \<and> errors_Is (Errorf_w ''all retries failed; last error: '' e) e
            \<and> (errors_Is (Errorf_w ''all retries failed; last error: '' e) ErrAllRetriesFailed
                 \<longleftrightarrow> errors_Is e ErrAllRetriesFailed))
       \<and> (\<forall>rs. err = None \<and> resp = Some rs \<longrightarrow>
            result (RoundTrip pf r req w) = Err (status_error (StatusCode rs))
            \<and> errors_Is (status_error (StatusCode rs)) ErrAllRetriesFailed
            \<and> Error (status_error (StatusCode rs))
                = ''all retry attempts failed: last attempt failed with status ''
                  @ format_d (StatusCode rs))"
proof -
  let ?out = "loop (transport_of pf r) (strategy_of r) pf r 0 req w"
  have inv: "invocations (trace ?out) = nat (MaxRetries r + 1 - 0)"
    using assms(1,2) by (simp add: RoundTrip_def nat_add_distrib)
  have lst: "last (calls (trace ?out)) = (rq, resp, err)"
    using assms(3) by (simp add: RoundTrip_def)
  have res: "result (RoundTrip pf r req w) = Err (exhausted resp err)"
    using loop_exhausted [OF inv assms(1) lst assms(4,5)] by (simp add: RoundTrip_def)
  have wrap: "Unwrap (Errorf_w p e) = Some e \<and> errors_Is (Errorf_w p e) e
      \<and> (errors_Is (Errorf_w p e) ErrAllRetriesFailed \<longleftrightarrow> errors_Is e ErrAllRetriesFailed)"
    for p e
    by (simp add: Errorf_w_def ErrAllRetriesFailed_def errors_Is_refl)
  have marker: "errors_Is (status_error c) ErrAllRetriesFailed
      \<and> Error (status_error c)
          = ''all retry attempts failed: last attempt failed with status '' @ format_d c"
    for c
    by (simp add: status_error_def ErrAllRetriesFailed_def)
  show ?thesis
    using res wrap marker by (simp add: exhausted_def)
qed

theorem RoundTrip_exhausted_error_witness:
  "0 \<le> MaxRetries (retrier (reply 503 (nop_closer ''Unavailable'')) 2)
   \<and> invocations (trace (RoundTrip test_platform
        (retrier (reply 503 (nop_closer ''Unavailable'')) 2) get_request start)) = nat 2 + 1
   \<and> last (calls (trace (RoundTrip test_platform
        (retrier (reply 503 (nop_closer ''Unavailable'')) 2) get_request start)))
       = (get_request, Some \<lparr>StatusCode = 503, RespHeader = [],
            RespBody = nop_closer ''Unavailable''\<rparr>, None)
   \<and> retryable (Some \<lparr>StatusCode = 503, RespHeader = [],
            RespBody = nop_closer ''Unavailable''\<rparr>) None
   \<and> discards_cleanly (Some \<lparr>StatusCode = 503, RespHeader = [],
            RespBody = nop_closer ''Unavailable''\<rparr>)
   \<and> result (RoundTrip test_platform
        (retrier (reply 503 (nop_closer ''Unavailable'')) 2) get_request start)
       = Err (status_error 503)
   \<and> errors_Is (status_error 503) ErrAllRetriesFailed
   \<and> Error (status_error 503)
       = ''all retry attempts failed: last attempt failed with status 503''"
proof -
  let ?r = "retrier (reply 503 (nop_closer ''Unavailable'')) 2"
  let ?rs = "\<lparr>StatusCode = 503, RespHeader = [], RespBody = nop_closer ''Unavailable''\<rparr>"
  let ?out = "RoundTrip test_platform ?r get_request start"
  have h1: "0 \<le> MaxRetries ?r" by (simp add: retrier_def)
  have m: "MaxRetries ?r = 2" by (simp add: retrier_def)
  have h2: "invocations (trace ?out) = nat (MaxRetries ?r) + 1"
    by (simp add: scenario_defs)
  have h3: "last (calls (trace ?out)) = (get_request, Some ?rs, None)"
    by (simp add: scenario_defs)
  have h4: "retryable (Some ?rs) None"
    by (simp add: retryable_def StatusInternalServerError_def)
  have h5: "discards_cleanly (Some ?rs)"
    by (simp add: discards_cleanly_def nop_closer_def)
  have f: "format_d 503 = ''503''"
    by (simp add: format_d_def decimal.simps digit_def)
  from RoundTrip_exhausted_error [OF h1 h2 h3 h4 h5]
  have "result ?out = Err (status_error 503)
      \<and> errors_Is (status_error 503) ErrAllRetriesFailed
      \<and> Error (status_error 503)
          = ''all retry attempts failed: last attempt failed with status '' @ format_d 503"
    by simp
  with h1 h2 h3 h4 h5 show ?thesis by (simp add: m f)
qed

text \<open>
  Claim C1 as stated fails for a transport error: with \<open>MaxRetries = 1\<close> and a transport
  that always fails with the same error, both attempts are made and the returned error
  wraps the transport error but does not match \<^verbatim>\<open>ErrAllRetriesFailed\<close>.
\<close>

theorem exhausted_transport_error_lacks_marker:
  "invocations (trace (RoundTrip test_platform (retrier (refuse simulatedError) 1)
       get_request start)) = 2
   \<and> result (RoundTrip test_platform (retrier (refuse simulatedError) 1) get_request start)
       = Err (Errorf_w ''all retries failed; last error: '' simulatedError)
   \<and> errors_Is (Errorf_w ''all retries failed; last error: '' simulatedError) simulatedError
   \<and> \<not> errors_Is (Errorf_w ''all retries failed; last error: '' simulatedError)
         ErrAllRetriesFailed"
  by (simp add: scenario_defs simulatedError_def ErrAllRetriesFailed_def)

text \<open>
  Claim C4, as the code has it. With a retry ceiling that is not negative, one call of
  \<^verbatim>\<open>RoundTrip\<close> invokes the underlying transport at most \<open>MaxRetries + 1\<close> times, and
  at least once unless the request has a body and a \<^verbatim>\<open>GetBody\<close> whose very first call
  fails, in which case the transport is not invoked at all. When \<^verbatim>\<open>GetBody\<close> never fails
  and every outcome of the transport is retryable with a response body (if any) that
  drains and closes without error, exactly \<open>MaxRetries + 1\<close> invocations are made and
  the call ends with an error.
\<close>

theorem RoundTrip_invocation_bounds:
  assumes "0 \<le> MaxRetries r"
  shows "invocations (trace (RoundTrip pf r req w)) \<le> nat (MaxRetries r) + 1
       \<and> (invocations (trace (RoundTrip pf r req w)) = 0
            \<longleftrightarrow> (\<exists>b g. Body req = Some b \<and> GetBody req = Some g \<and> snd (fst (g w)) \<noteq> None))
       \<and> ((\<forall>g w'. GetBody req = Some g \<longrightarrow> snd (fst (g w')) = None)
            \<and> (\<forall>rq w'. retryable (fst (fst (transport_of pf r rq w')))
                            (snd (fst (transport_of pf r rq w')))
                        \<and> discards_cleanly (fst (fst (transport_of pf r rq w'))))
            \<longrightarrow> invocations (trace (RoundTrip pf r req w)) = nat (MaxRetries r) + 1
                \<and> (\<exists>e. result (RoundTrip pf r req w) = Err e))"
proof (intro conjI impI)
  have "invocations (trace (RoundTrip pf r req w)) \<le> nat (MaxRetries r + 1 - 0)"
    unfolding RoundTrip_def by (rule loop_invocations_le)
  with assms show "invocations (trace (RoundTrip pf r req w)) \<le> nat (MaxRetries r) + 1"
    by (simp add: nat_add_distrib)
next
  show "invocations (trace (RoundTrip pf r req w)) = 0
      \<longleftrightarrow> (\<exists>b g. Body req = Some b \<and> GetBody req = Some g \<and> snd (fst (g w)) \<noteq> None)"
    unfolding RoundTrip_def loop_no_invocation [OF assms] by (rule regenerate_fails_iff)
next
  assume h: "(\<forall>g w'. GetBody req = Some g \<longrightarrow> snd (fst (g w')) = None)
      \<and> (\<forall>rq w'. retryable (fst (fst (transport_of pf r rq w')))
                      (snd (fst (transport_of pf r rq w')))
                  \<and> discards_cleanly (fst (fst (transport_of pf r rq w'))))"
  from loop_always_retryable [OF conjunct1 [OF h] conjunct2 [OF h] assms, of "strategy_of r" pf w]
    assms
  show "invocations (trace (RoundTrip pf r req w)) = nat (MaxRetries r) + 1"
    and "\<exists>e. result (RoundTrip pf r req w) = Err e"
    by (simp_all add: RoundTrip_def nat_add_distrib)
qed

theorem RoundTrip_invocation_bounds_witness:
  "0 \<le> MaxRetries (retrier (reply 503 (nop_closer ''Unavailable'')) 2)
   \<and> invocations (trace (RoundTrip test_platform
        (retrier (reply 503 (nop_closer ''Unavailable'')) 2) get_request start)) = 3"
proof -
  let ?r = "retrier (reply 503 (nop_closer ''Unavailable'')) 2"
  have h1: "0 \<le> MaxRetries ?r" by (simp add: retrier_def)
  have m: "MaxRetries ?r = 2" by (simp add: retrier_def)
  have g: "\<forall>g w'. GetBody get_request = Some g \<longrightarrow> snd (fst (g w')) = None"
    by (simp add: get_request_def)
  have t: "\<forall>rq w'. retryable (fst (fst (transport_of test_platform ?r rq w')))
                      (snd (fst (transport_of test_platform ?r rq w')))
                  \<and> discards_cleanly (fst (fst (transport_of test_platform ?r rq w')))"
    by (simp add: transport_of_def retrier_def reply_def retryable_def discards_cleanly_def
        nop_closer_def StatusInternalServerError_def)
  from RoundTrip_invocation_bounds [OF h1, of test_platform get_request start] g t
  have "invocations (trace (RoundTrip test_platform ?r get_request start))
      = nat (MaxRetries ?r) + 1"
    by blast
  with h1 show ?thesis by (simp add: m)
qed

text \<open>
  Claim C4 as stated fails at its lower bound: a \<^verbatim>\<open>GetBody\<close> that fails on its first
  call ends \<^verbatim>\<open>RoundTrip\<close> before the underlying transport is invoked at all.
\<close>

theorem no_invocation_when_GetBody_fails_first:
  "0 \<le> MaxRetries (retrier (reply 503 (nop_closer ''Unavailable'')) 3)
   \<and> invocations (trace (RoundTrip test_platform
        (retrier (reply 503 (nop_closer ''Unavailable'')) 3)
        (post_request (Some (failing_from 0))) start)) = 0
   \<and> \<not> 1 \<le> invocations (trace (RoundTrip test_platform
        (retrier (reply 503 (nop_closer ''Unavailable'')) 3)
        (post_request (Some (failing_from 0))) start))"
  by (simp add: scenario_defs)

subsection \<open>The cancellation signal\<close>

lemma with_context_no_calls: "calls evs = [] \<Longrightarrow> map (with_context c) evs = evs"
  by (induction evs rule: calls.induct) (simp_all add: with_context_def)

lemma regenerate_context:
  "regenerate req w = (eo, req1, w1, evs1) \<Longrightarrow>
   regenerate (req\<lparr>Context := c\<rparr>) w = (eo, req1\<lparr>Context := c\<rparr>, w1, evs1)"
  by (auto simp: regenerate_def split: option.splits prod.splits)

lemma retry_log_context:
  "retry_log r a d (req\<lparr>Context := c\<rparr>) resp err = retry_log r a d req resp err"
  by (simp add: retry_log_def split: option.splits)

lemma final_log_context:
  "final_log r (req\<lparr>Context := c\<rparr>) resp err = final_log r req resp err"
  by (simp add: final_log_def split: option.splits)

lemma after_failure_context:
  "after_failure S pf r a (req\<lparr>Context := c\<rparr>) w resp err
     = after_failure S pf r a req w resp err"
  by (simp add: after_failure_def retry_log_context final_log_context
      split: prod.splits option.splits)

lemma handle_context:
  "handle S pf r a (req\<lparr>Context := c\<rparr>) w resp err = handle S pf r a req w resp err"
  by (simp add: handle_def after_failure_context split: option.splits)

lemma iteration_context:
  assumes T: "\<forall>rq c w. T (rq\<lparr>Context := c\<rparr>) w = T rq w"
    and it: "iteration T S pf r a req w = (st, req', w', evs)"
  shows "iteration T S pf r a (req\<lparr>Context := c\<rparr>) w
      = (st, req'\<lparr>Context := c\<rparr>, w', map (with_context c) evs)"
  using it
proof (cases rule: iteration_cases)
  case (fail e)
  from regenerate_calls [OF fail(1)] have "map (with_context c) evs = evs"
    by (rule with_context_no_calls)
  with iteration_regen_fail [OF regenerate_context [OF fail(1), of c]] fail(2) show ?thesis
    by simp
next
  case (call w1 evs1 resp err w2 evs3)
  have m1: "map (with_context c) evs1 = evs1"
    using regenerate_calls [OF call(1)] by (rule with_context_no_calls)
  have m3: "map (with_context c) evs3 = evs3"
    using handle_calls [OF call(3)] by (rule with_context_no_calls)
  have t: "T (req'\<lparr>Context := c\<rparr>) w1 = ((resp, err), w2)"
    using T call(2) by simp
  have h: "handle S pf r a (req'\<lparr>Context := c\<rparr>) w2 resp err = (st, w', evs3)"
    using call(3) by (simp add: handle_context)
  have "iteration T S pf r a (req\<lparr>Context := c\<rparr>) w
      = (st, req'\<lparr>Context := c\<rparr>, w',
         evs1 @ EvRoundTrip (req'\<lparr>Context := c\<rparr>) resp err # evs3)"
    using regenerate_context [OF call(1), of c] t h by (rule iteration_regen_ok)
  with call(4) m1 m3 show ?thesis by (simp add: with_context_def)
qed

lemma loop_context:
  assumes T: "\<forall>rq c w. T (rq\<lparr>Context := c\<rparr>) w = T rq w"
  shows "loop T S pf r a (req\<lparr>Context := c\<rparr>) w
      = (loop T S pf r a req w)
          \<lparr>request := (request (loop T S pf r a req w))\<lparr>Context := c\<rparr>,
           trace := map (with_context c) (trace (loop T S pf r a req w))\<rparr>"
proof (induction "nat (MaxRetries r + 1 - a)" arbitrary: a req w)
  case 0
  then have "\<not> a \<le> MaxRetries r" by simp
  then show ?case by (simp add: loop_stop)
next
  case (Suc n)
  show ?case
  proof (cases rule: loop_cases [of a r T S pf req w])
    case stop
    then show ?thesis by (simp add: loop_stop)
  next
    case (return res req' w' evs)
    from loop_Return [OF return(1) iteration_context [OF T return(2)]]
    show ?thesis by (simp add: return(3))
  next
    case (continue req' w' evs)
    have n: "n = nat (MaxRetries r + 1 - (a + 1))" using Suc(2) by simp
    from loop_Continue [OF continue(1) iteration_context [OF T continue(2)]]
      Suc(1) [OF n, of req' w']
    show ?thesis by (simp add: continue(3))
  qed
qed

lemma handle_retry_exact:
  "retryable resp err \<Longrightarrow> discards_cleanly resp \<Longrightarrow> a < MaxRetries r \<Longrightarrow>
   handle S pf r a req w resp err
     = (Continue, Sleep pf (S a) w,
        snd (discard resp) @ retry_log r a (S a) req resp err @ [EvSleep (S a)])"
  by (auto simp: retryable_def discards_cleanly_def handle_def after_failure_def discard_def
      Let_def split: option.splits)

lemma handle_final_exact:
  "retryable resp err \<Longrightarrow> discards_cleanly resp \<Longrightarrow> \<not> a < MaxRetries r \<Longrightarrow>
   handle S pf r a req w resp err
     = (Return (Err (exhausted resp err)), w, snd (discard resp) @ final_log r req resp err)"
  by (auto simp: retryable_def discards_cleanly_def handle_def after_failure_def discard_def
      Let_def split: option.splits)

lemma regenerate_fail_events:
  "regenerate req w = (Some e, req1, w1, evs1) \<Longrightarrow> \<exists>b e'. evs1 = [EvGetBody b (Some e')]"
  by (auto simp: regenerate_def split: option.splits prod.splits)

lemma loop_next_attempt:
  assumes "a \<le> MaxRetries r"
  shows "calls (trace (loop T S pf r a req w)) \<noteq> []
       \<or> (\<exists>b e'. trace (loop T S pf r a req w) = [EvGetBody b (Some e')])"
proof -
  obtain eo req1 w1 evs1 where rg: "regenerate req w = (eo, req1, w1, evs1)"
    by (cases "regenerate req w") auto
  show ?thesis
  proof (cases eo)
    case (Some e)
    from loop_Return [OF assms iteration_regen_fail [OF rg [unfolded Some]]]
      regenerate_fail_events [OF rg [unfolded Some]]
    show ?thesis by simp
  next
    case None
    obtain resp err w2 where t: "T req1 w1 = ((resp, err), w2)"
      by (cases "T req1 w1") auto
    obtain st w3 evs3 where hd: "handle S pf r a req1 w2 resp err = (st, w3, evs3)"
      by (cases "handle S pf r a req1 w2 resp err") auto
    have it: "iteration T S pf r a req w = (st, req1, w3, evs1 @ EvRoundTrip req1 resp err # evs3)"
      using rg [unfolded None] t hd by (rule iteration_regen_ok)
    have "calls (trace (loop T S pf r a req w)) \<noteq> []"
    proof (cases st)
      case (Return res)
      from loop_Return [OF assms it [unfolded Return]] show ?thesis by simp
    next
      case Continue
      from loop_Continue [OF assms it [unfolded Continue]] show ?thesis by simp
    qed
    then show ?thesis ..
  qed
qed

lemma iteration_locate:
  assumes it: "iteration T S pf r a req w = (st, req', w', evs)"
    and eq: "evs @ t = pre @ EvRoundTrip rq resp err # post"
  shows "(calls pre = [] \<and> rq = req'
          \<and> (\<exists>w2 evs3. handle S pf r a req' w2 resp err = (st, w', evs3) \<and> post = evs3 @ t))
       \<or> (\<exists>m. pre = evs @ m \<and> t = m @ EvRoundTrip rq resp err # post)"
  using it
proof (cases rule: iteration_cases)
  case (fail e)
  from fail(1) have "calls evs = []" by (rule regenerate_calls)
  from split_in_tail [OF this eq] show ?thesis by blast
next
  case (call w1 evs1 resp0 err0 w2 evs3)
  have c1: "calls evs1 = []" using call(1) by (rule regenerate_calls)
  have c3: "calls evs3 = []" using call(3) by (rule handle_calls)
  from eq call(4) have "evs1 @ (EvRoundTrip req' resp0 err0 # evs3 @ t)
      = pre @ EvRoundTrip rq resp err # post" by simp
  from split_in_tail [OF c1 this] obtain m where
    pre: "pre = evs1 @ m" and
    m: "EvRoundTrip req' resp0 err0 # evs3 @ t = m @ EvRoundTrip rq resp err # post"
    by blast
  show ?thesis
  proof (cases m)
    case Nil
    with m have "rq = req'" "resp0 = resp" "err0 = err" "post = evs3 @ t" by simp_all
    with call(3) pre Nil c1 show ?thesis by auto
  next
    case (Cons z m')
    with m have z: "z = EvRoundTrip req' resp0 err0"
      and "evs3 @ t = m' @ EvRoundTrip rq resp err # post" by simp_all
    from split_in_tail [OF c3 this(2)] obtain m'' where
      "m' = evs3 @ m''" "t = m'' @ EvRoundTrip rq resp err # post" by blast
    with pre Cons z call(4) show ?thesis by simp
  qed
qed

lemma loop_retry_structure:
  assumes tr: "trace (loop T S pf r a req w) = pre @ EvRoundTrip rq resp err # post"
    and re: "retryable resp err" and cl: "discards_cleanly resp"
  shows "(a + int (length (calls pre)) < MaxRetries r \<longrightarrow>
            (\<exists>rest. post = snd (discard resp)
                       @ retry_log r (a + int (length (calls pre)))
                           (S (a + int (length (calls pre)))) rq resp err
                       @ EvSleep (S (a + int (length (calls pre)))) # rest
                   \<and> (calls rest \<noteq> [] \<or> (\<exists>b e'. rest = [EvGetBody b (Some e')]))))
       \<and> (\<not> a + int (length (calls pre)) < MaxRetries r \<longrightarrow>
            post = snd (discard resp) @ final_log r rq resp err
            \<and> result (loop T S pf r a req w) = Err (exhausted resp err))"
  using tr
proof (induction "nat (MaxRetries r + 1 - a)" arbitrary: a req w pre)
  case 0
  then have "\<not> a \<le> MaxRetries r" by simp
  with 0 show ?case by (simp add: loop_stop)
next
  case (Suc n)
  show ?case
  proof (cases rule: loop_cases [of a r T S pf req w])
    case stop
    with Suc.prems show ?thesis by simp
  next
    case (return res req' w' evs)
    with Suc.prems have "evs @ [] = pre @ EvRoundTrip rq resp err # post" by simp
    from iteration_locate [OF return(2) this]
    obtain w2 evs3 where p: "calls pre = []" and q: "rq = req'"
      and h: "handle S pf r a req' w2 resp err = (Return res, w', evs3)" and po: "post = evs3"
      by auto
    have last: "\<not> a < MaxRetries r"
    proof
      assume "a < MaxRetries r"
      from handle_retry_exact [OF re cl this, of S pf req' w2] h show False by simp
    qed
    from handle_final_exact [OF re cl last, of S pf req' w2] h
    have "res = Err (exhausted resp err)" "evs3 = snd (discard resp) @ final_log r req' resp err"
      by simp_all
    with p q po last return(3) show ?thesis by simp
  next
    case (continue req' w' evs)
    let ?out = "loop T S pf r (a + 1) req' w'"
    have n: "n = nat (MaxRetries r + 1 - (a + 1))" using Suc(2) by simp
    from iteration_Continue [OF continue(2)] obtain resp0 err0 where
      lt: "a < MaxRetries r" and c: "calls evs = [(req', resp0, err0)]" by auto
    from Suc.prems continue(3)
    have "evs @ trace ?out = pre @ EvRoundTrip rq resp err # post" by simp
    from iteration_locate [OF continue(2) this]
    show ?thesis
    proof
      assume "calls pre = [] \<and> rq = req'
          \<and> (\<exists>w2 evs3. handle S pf r a req' w2 resp err = (Continue, w', evs3)
                \<and> post = evs3 @ trace ?out)"
      then obtain w2 evs3 where p: "calls pre = []" and q: "rq = req'"
        and h: "handle S pf r a req' w2 resp err = (Continue, w', evs3)"
        and po: "post = evs3 @ trace ?out" by auto
      from handle_retry_exact [OF re cl lt, of S pf req' w2] h
      have "evs3 = snd (discard resp) @ retry_log r a (S a) req' resp err @ [EvSleep (S a)]"
        by simp
      moreover from lt have "a + 1 \<le> MaxRetries r" by simp
      note loop_next_attempt [OF this, of T S pf req' w']
      ultimately show ?thesis using p q po lt by auto
    next
      assume "\<exists>m. pre = evs @ m \<and> trace ?out = m @ EvRoundTrip rq resp err # post"
      then obtain m where pre: "pre = evs @ m"
        and t: "trace ?out = m @ EvRoundTrip rq resp err # post" by blast
      have idx: "a + int (length (calls pre)) = a + 1 + int (length (calls m))"
        using pre c by simp
      from Suc(1) [OF n t] show ?thesis
        unfolding idx by (simp add: continue(3))
    qed
  qed
qed

lemma sleeps_append [simp]: "sleeps (a @ b) = sleeps a @ sleeps b"
  by (induction a rule: sleeps.induct) simp_all

lemma regenerate_sleeps: "regenerate req w = (e, req1, w1, evs1) \<Longrightarrow> sleeps evs1 = []"
  by (auto simp: regenerate_def split: option.splits prod.splits)

lemma regenerate_world:
  assumes "\<forall>g w'. GetBody req = Some g \<longrightarrow> obs (snd (g w')) = obs w'"
    and "regenerate req w = (e, req1, w1, evs1)"
  shows "obs w1 = obs w"
proof (cases "GetBody req")
  case None
  with assms(2) show ?thesis by (auto simp: regenerate_def split: option.splits)
next
  case (Some g)
  with assms(1) have "obs (snd (g w)) = obs w" by simp
  with Some assms(2) show ?thesis
    by (cases "g w") (auto simp: regenerate_def split: option.splits)
qed

lemma handle_sleeps:
  assumes "handle S pf r a req w resp err = (st, w', evs)"
  shows "(w' = w \<and> sleeps evs = []) \<or> (\<exists>d. w' = Sleep pf d w \<and> sleeps evs = [d])"
  using assms
  by (auto simp: handle_def after_failure_def discard_def retry_log_def final_log_def Let_def
      split: option.splits if_splits)

lemma iteration_clock:
  assumes gb: "\<forall>g w'. GetBody req = Some g \<longrightarrow> obs (snd (g w')) = obs w'"
    and tp: "\<forall>rq w'. obs (snd (T rq w')) = obs w'"
    and sl: "\<forall>d w'. obs (Sleep pf d w') = adv d (obs w')"
    and it: "iteration T S pf r a req w = (st, req', w', evs)"
  shows "obs w' = foldl (\<lambda>t d. adv d t) (obs w) (sleeps evs)"
  using it
proof (cases rule: iteration_cases)
  case (fail e)
  from regenerate_world [OF gb fail(1)] regenerate_sleeps [OF fail(1)] show ?thesis by simp
next
  case (call w1 evs1 resp err w2 evs3)
  have "obs w1 = obs w" using gb call(1) by (rule regenerate_world)
  moreover have "obs w2 = obs w1" using tp [rule_format, of req' w1] call(2) by simp
  moreover have "sleeps evs1 = []" using call(1) by (rule regenerate_sleeps)
  moreover note handle_sleeps [OF call(3)]
  ultimately show ?thesis using sl call(4) by auto
qed

lemma loop_clock:
  assumes gb: "\<forall>g w'. GetBody req = Some g \<longrightarrow> obs (snd (g w')) = obs w'"
    and tp: "\<forall>rq w'. obs (snd (T rq w')) = obs w'"
    and sl: "\<forall>d w'. obs (Sleep pf d w') = adv d (obs w')"
  shows "obs (world (loop T S pf r a req w))
      = foldl (\<lambda>t d. adv d t) (obs w) (sleeps (trace (loop T S pf r a req w)))"
  using gb
proof (induction "nat (MaxRetries r + 1 - a)" arbitrary: a req w)
  case 0
  then have "\<not> a \<le> MaxRetries r" by simp
  then show ?case by (simp add: loop_stop)
next
  case (Suc n)
  show ?case
  proof (cases rule: loop_cases [of a r T S pf req w])
    case stop
    then show ?thesis by simp
  next
    case (return res req' w' evs)
    from iteration_clock [OF Suc.prems tp sl return(2)] return(3) show ?thesis by simp
  next
    case (continue req' w' evs)
    have n: "n = nat (MaxRetries r + 1 - (a + 1))" using Suc(2) by simp
    have "GetBody req' = GetBody req"
      using continue(2) by (cases rule: iteration_cases) (simp_all add: regenerate_GetBody)
    with Suc.prems have gb': "\<forall>g w'. GetBody req' = Some g \<longrightarrow> obs (snd (g w')) = obs w'"
      by simp
    from Suc(1) [OF n gb', of w'] iteration_clock [OF Suc.prems tp sl continue(2)]
    show ?thesis by (simp add: continue(3))
  qed
qed

text \<open>
  Claim C5, as the code has it. \<^verbatim>\<open>RoundTrip\<close> never reads the request's cancellation
  signal. Three facts say so.
  \<^item> Unless the underlying transport itself reacts to the signal, replacing the signal
    carried by the request changes nothing in the result, in the state of the world
    afterwards or in the sequence of effects.
  \<^item> Every retryable outcome whose response, if any, drains and closes cleanly is
    treated alike, whatever the transport error is (a cancellation error reported by the
    transport included): while attempts remain, what follows the clean-up is the retry
    warning, a \<^verbatim>\<open>time.Sleep\<close> of exactly the strategy's delay for that attempt, and
    the next attempt (its \<^verbatim>\<open>GetBody\<close> failure or its invocation of the transport); at
    the last attempt the exhausted-retries error is returned.
  \<^item> Every sleep is complete: an observation \<open>obs\<close> of the world that the transport
    and \<^verbatim>\<open>GetBody\<close> leave alone and that a sleep of \<open>d\<close> changes by \<open>adv d\<close> (a clock)
    has, when \<^verbatim>\<open>RoundTrip\<close> returns, been advanced by every delay slept, in order.
\<close>

theorem RoundTrip_ignores_context:
  "((\<forall>rq c w. transport_of pf r (rq\<lparr>Context := c\<rparr>) w = transport_of pf r rq w) \<longrightarrow>
      RoundTrip pf r (req\<lparr>Context := c\<rparr>) w
        = (RoundTrip pf r req w)
            \<lparr>request := (request (RoundTrip pf r req w))\<lparr>Context := c\<rparr>,
             trace := map (with_context c) (trace (RoundTrip pf r req w))\<rparr>)
   \<and> (\<forall>pre rq resp err post.
         trace (RoundTrip pf r req w) = pre @ EvRoundTrip rq resp err # post
         \<and> retryable resp err \<and> discards_cleanly resp \<longrightarrow>
         (int (length (calls pre)) < MaxRetries r \<longrightarrow>
            (\<exists>rest. post = snd (discard resp)
                       @ retry_log r (int (length (calls pre)))
                           (strategy_of r (int (length (calls pre)))) rq resp err
                       @ EvSleep (strategy_of r (int (length (calls pre)))) # rest
                   \<and> (calls rest \<noteq> [] \<or> (\<exists>b e'. rest = [EvGetBody b (Some e')]))))
         \<and> (\<not> int (length (calls pre)) < MaxRetries r \<longrightarrow>
              post = snd (discard resp) @ final_log r rq resp err
              \<and> result (RoundTrip pf r req w) = Err (exhausted resp err)))
   \<and> ((\<forall>g w'. GetBody req = Some g \<longrightarrow> obs (snd (g w')) = obs w')
        \<and> (\<forall>rq w'. obs (snd (transport_of pf r rq w')) = obs w')
        \<and> (\<forall>d w'. obs (Sleep pf d w') = adv d (obs w')) \<longrightarrow>
        obs (world (RoundTrip pf r req w))
          = foldl (\<lambda>t d. adv d t) (obs w) (sleeps (trace (RoundTrip pf r req w))))"
proof (intro conjI impI allI)
  assume "\<forall>rq c w. transport_of pf r (rq\<lparr>Context := c\<rparr>) w = transport_of pf r rq w"
  then show "RoundTrip pf r (req\<lparr>Context := c\<rparr>) w
        = (RoundTrip pf r req w)
            \<lparr>request := (request (RoundTrip pf r req w))\<lparr>Context := c\<rparr>,
             trace := map (with_context c) (trace (RoundTrip pf r req w))\<rparr>"
    unfolding RoundTrip_def by (rule loop_context)
next
  fix pre rq resp err post
  assume h: "trace (RoundTrip pf r req w) = pre @ EvRoundTrip rq resp err # post
         \<and> retryable resp err \<and> discards_cleanly resp"
  then have tr: "trace (loop (transport_of pf r) (strategy_of r) pf r 0 req w)
      = pre @ EvRoundTrip rq resp err # post"
    and re: "retryable resp err" and cl: "discards_cleanly resp"
    by (simp_all add: RoundTrip_def)
  note st = loop_retry_structure [OF tr re cl]
  {
    assume "int (length (calls pre)) < MaxRetries r"
    with st show "\<exists>rest. post = snd (discard resp)
                       @ retry_log r (int (length (calls pre)))
                           (strategy_of r (int (length (calls pre)))) rq resp err
                       @ EvSleep (strategy_of r (int (length (calls pre)))) # rest
                   \<and> (calls rest \<noteq> [] \<or> (\<exists>b e'. rest = [EvGetBody b (Some e')]))"
      by simp
  }
  {
    assume "\<not> int (length (calls pre)) < MaxRetries r"
    with st show "post = snd (discard resp) @ final_log r rq resp err"
      and "result (RoundTrip pf r req w) = Err (exhausted resp err)"
      by (simp_all add: RoundTrip_def)
  }
next
  assume "(\<forall>g w'. GetBody req = Some g \<longrightarrow> obs (snd (g w')) = obs w')
        \<and> (\<forall>rq w'. obs (snd (transport_of pf r rq w')) = obs w')
        \<and> (\<forall>d w'. obs (Sleep pf d w') = adv d (obs w'))"
  then have gb: "\<forall>g w'. GetBody req = Some g \<longrightarrow> obs (snd (g w')) = obs w'"
    and tp: "\<forall>rq w'. obs (snd (transport_of pf r rq w')) = obs w'"
    and sl: "\<forall>d w'. obs (Sleep pf d w') = adv d (obs w')"
    by blast+
  show "obs (world (RoundTrip pf r req w))
          = foldl (\<lambda>t d. adv d t) (obs w) (sleeps (trace (RoundTrip pf r req w)))"
    unfolding RoundTrip_def using gb tp sl by (rule loop_clock)
qed

theorem RoundTrip_ignores_context_witness:
  "result (RoundTrip test_platform (retrier (reply 503 (nop_closer ''Unavailable'')) 1)
       (get_request\<lparr>Context := Context (with_deadline 500000 get_request)\<rparr>) start)
     = Err (status_error 503)
   \<and> now (world (RoundTrip test_platform (retrier (reply 503 (nop_closer ''Unavailable'')) 1)
       (get_request\<lparr>Context := Context (with_deadline 500000 get_request)\<rparr>) start))
     = 1000000
   \<and> trace (RoundTrip test_platform
         (retrier (reply_unless_done 503 (nop_closer ''Unavailable'')) 2)
         (with_deadline 500000 get_request) start)
       = [EvRoundTrip (with_deadline 500000 get_request)
            (Some \<lparr>StatusCode = 503, RespHeader = [], RespBody = nop_closer ''Unavailable''\<rparr>)
            None,
          EvDrain (nop_closer ''Unavailable''), EvClose (nop_closer ''Unavailable''),
          EvSleep Millisecond,
          EvRoundTrip (with_deadline 500000 get_request) None (Some DeadlineExceeded),
          EvSleep Millisecond]
         @ EvRoundTrip (with_deadline 500000 get_request) None (Some DeadlineExceeded) # []
   \<and> retryable None (Some DeadlineExceeded)
   \<and> discards_cleanly None
   \<and> result (RoundTrip test_platform
         (retrier (reply_unless_done 503 (nop_closer ''Unavailable'')) 2)
         (with_deadline 500000 get_request) start)
       = Err (Errorf_w ''all retries failed; last error: '' DeadlineExceeded)
   \<and> now (world (RoundTrip test_platform
         (retrier (reply_unless_done 503 (nop_closer ''Unavailable'')) 2)
         (with_deadline 500000 get_request) start))
       = 2000000"
proof -
  let ?r = "retrier (reply 503 (nop_closer ''Unavailable'')) 1"
  let ?r2 = "retrier (reply_unless_done 503 (nop_closer ''Unavailable'')) 2"
  let ?rq = "with_deadline 500000 get_request"
  let ?out = "RoundTrip test_platform ?r2 ?rq start"
  let ?pre = "[EvRoundTrip ?rq
            (Some \<lparr>StatusCode = 503, RespHeader = [], RespBody = nop_closer ''Unavailable''\<rparr>)
            None,
          EvDrain (nop_closer ''Unavailable''), EvClose (nop_closer ''Unavailable''),
          EvSleep Millisecond,
          EvRoundTrip ?rq None (Some DeadlineExceeded),
          EvSleep Millisecond]"
  have h: "\<forall>rq c w. transport_of test_platform ?r (rq\<lparr>Context := c\<rparr>) w
      = transport_of test_platform ?r rq w"
    by (simp add: transport_of_def retrier_def reply_def)
  have plain: "result (RoundTrip test_platform ?r get_request start) = Err (status_error 503)
      \<and> now (world (RoundTrip test_platform ?r get_request start)) = 1000000"
    by (simp add: scenario_defs)
  have c1: "RoundTrip test_platform ?r
        (get_request\<lparr>Context := Context (with_deadline 500000 get_request)\<rparr>) start
      = (RoundTrip test_platform ?r get_request start)
          \<lparr>request := (request (RoundTrip test_platform ?r get_request start))
             \<lparr>Context := Context (with_deadline 500000 get_request)\<rparr>,
           trace := map (with_context (Context (with_deadline 500000 get_request)))
             (trace (RoundTrip test_platform ?r get_request start))\<rparr>"
    using RoundTrip_ignores_context [where pf = test_platform and r = ?r
        and req = get_request and c = "Context (with_deadline 500000 get_request)"
        and w = start and obs = now and adv = "\<lambda>d t. t + max 0 (sint d)"] h
    by blast
  have t: "trace ?out = ?pre @ EvRoundTrip ?rq None (Some DeadlineExceeded) # []"
    by (simp add: scenario_defs)
  have re: "retryable None (Some DeadlineExceeded)" by (simp add: retryable_def)
  have cl: "discards_cleanly None" by (simp add: discards_cleanly_def)
  have last: "\<not> int (length (calls ?pre)) < MaxRetries ?r2" by (simp add: retrier_def)
  note inst = RoundTrip_ignores_context [where pf = test_platform and r = ?r2
        and req = ?rq and c = "Context ?rq" and w = start and obs = now
        and adv = "\<lambda>d t. t + max 0 (sint d)"]
  from inst t re cl last
  have res: "result ?out = Err (exhausted None (Some DeadlineExceeded))"
    by blast
  have gb: "\<forall>g w'. GetBody ?rq = Some g \<longrightarrow> now (snd (g w')) = now w'"
    by (simp add: with_deadline_def get_request_def)
  have tp: "\<forall>rq w'. now (snd (transport_of test_platform ?r2 rq w')) = now w'"
    by (simp add: transport_of_def retrier_def reply_unless_done_def reply_def
        split: option.splits)
  have sl: "\<forall>d w'. now (Sleep test_platform d w') = now w' + max 0 (sint d)"
    by (simp add: test_platform_def)
  from inst gb tp sl
  have "now (world ?out)
      = foldl (\<lambda>t d. t + max 0 (sint d)) (now start) (sleeps (trace ?out))"
    by blast
  then have clock: "now (world ?out) = 2000000"
    unfolding t by (simp add: start_def Millisecond_def)
  from c1 plain res clock t re cl show ?thesis
    by (simp add: exhausted_def)
qed

text \<open>
  Claim C5 as stated fails. The request's deadline lies half a millisecond ahead, the
  strategy waits one millisecond, the transport answers 503 without looking at the
  context. The signal has not fired when \<^verbatim>\<open>RoundTrip\<close> starts and fires during the
  backoff sleep; the sleep still lasts the whole millisecond, a second invocation of the
  transport follows, and the error returned is the one for exhausted retries, not a
  cancellation error.
\<close>

theorem deadline_during_backoff_is_not_noticed:
  "Context (with_deadline 500000 get_request) start = None
   \<and> trace (RoundTrip test_platform (retrier (reply 503 (nop_closer ''Unavailable'')) 1)
        (with_deadline 500000 get_request) start)
       = [EvRoundTrip (with_deadline 500000 get_request)
            (Some \<lparr>StatusCode = 503, RespHeader = [], RespBody = nop_closer ''Unavailable''\<rparr>)
            None,
          EvDrain (nop_closer ''Unavailable''), EvClose (nop_closer ''Unavailable''),
          EvSleep Millisecond,
          EvRoundTrip (with_deadline 500000 get_request)
            (Some \<lparr>StatusCode = 503, RespHeader = [], RespBody = nop_closer ''Unavailable''\<rparr>)
            None,
          EvDrain (nop_closer ''Unavailable''), EvClose (nop_closer ''Unavailable'')]
   \<and> now (world (RoundTrip test_platform (retrier (reply 503 (nop_closer ''Unavailable'')) 1)
        (with_deadline 500000 get_request) start)) = 1000000
   \<and> Context (with_deadline 500000 get_request)
        (world (RoundTrip test_platform (retrier (reply 503 (nop_closer ''Unavailable'')) 1)
          (with_deadline 500000 get_request) start)) = Some DeadlineExceeded
   \<and> result (RoundTrip test_platform (retrier (reply 503 (nop_closer ''Unavailable'')) 1)
        (with_deadline 500000 get_request) start) = Err (status_error 503)
   \<and> \<not> errors_Is (status_error 503) DeadlineExceeded"
  by (simp add: scenario_defs status_error_def ErrAllRetriesFailed_def DeadlineExceeded_def)

subsection \<open>A body that cannot be regenerated\<close>

text \<open>
  When \<^verbatim>\<open>GetBody\<close> is present and fails, at whatever attempt, the loop ends there with
  the error wrapping the failure, and the underlying transport is not invoked again.
\<close>

lemma loop_aborts_when_GetBody_fails:
  assumes "a \<le> MaxRetries r" and "Body req = Some b" and "GetBody req = Some g"
    and "g w = ((bodyClone, Some e), w1)"
  shows "loop T S pf r a req w
      = \<lparr>result = Err (Errorf_w ''failed to get request body for retry: '' e), request = req,
         world = w1, trace = [EvGetBody bodyClone (Some e)]\<rparr>"
proof -
  have "regenerate req w
      = (Some (Errorf_w ''failed to get request body for retry: '' e), req, w1,
         [EvGetBody bodyClone (Some e)])"
    using assms(2-4) by (simp add: regenerate_def)
  from loop_Return [OF assms(1) iteration_regen_fail [OF this]] show ?thesis .
qed

lemma GetBody_failure_on_retry_aborts:
  "invocations (trace (RoundTrip test_platform (retrier (reply 500 (nop_closer ''Fail'')) 1)
       (post_request (Some (failing_from 1))) start)) = 1
   \<and> result (RoundTrip test_platform (retrier (reply 500 (nop_closer ''Fail'')) 1)
       (post_request (Some (failing_from 1))) start)
     = Err (Errorf_w ''failed to get request body for retry: '' getBodyError)"
  by (simp add: scenario_defs)

text \<open>
  Claim C2 (a request with a body and no \<^verbatim>\<open>GetBody\<close> is not retried but aborted with a
  "failed to obtain replayable body" error). The guard of lines 95 to 102 skips the
  regeneration when \<^verbatim>\<open>GetBody\<close> is \<^verbatim>\<open>nil\<close> and nothing else looks at it: after a 500
  the same request, with the body the first attempt has already consumed, is sent a
  second time, and the error returned is the one for exhausted retries.
\<close>

theorem RoundTrip_retries_body_without_GetBody:
  "Body (post_request None) = Some ''Request Body Content''
   \<and> GetBody (post_request None) = None
   \<and> calls (trace (RoundTrip test_platform (retrier (reply 500 (nop_closer ''Fail'')) 1)
        (post_request None) start))
       = [(post_request None,
           Some \<lparr>StatusCode = 500, RespHeader = [], RespBody = nop_closer ''Fail''\<rparr>, None),
          (post_request None,
           Some \<lparr>StatusCode = 500, RespHeader = [], RespBody = nop_closer ''Fail''\<rparr>, None)]
   \<and> result (RoundTrip test_platform (retrier (reply 500 (nop_closer ''Fail'')) 1)
        (post_request None) start) = Err (status_error 500)"
  by (simp add: scenario_defs)

subsection \<open>The client built by the constructor\<close>

lemma NewHTTPRetryClient_default_MaxRetries: "MaxRetries (NewHTTPRetryClient pf []) = 3"
  by (simp add: NewHTTPRetryClient_def DefaultMaxRetries_def)

lemma NewHTTPRetryClient_MaxRetries:
  "MaxRetries (NewHTTPRetryClient pf [WithMaxRetriesRetry n]) = n"
  by (simp add: NewHTTPRetryClient_def WithMaxRetriesRetry_def)

lemma NewHTTPRetryClient_invocations:
  assumes "0 \<le> n"
  shows "invocations (trace (RoundTrip pf (NewHTTPRetryClient pf [WithMaxRetriesRetry n]) req w))
      \<le> nat n + 1"
proof -
  let ?r = "NewHTTPRetryClient pf [WithMaxRetriesRetry n]"
  have "invocations (trace (RoundTrip pf ?r req w)) \<le> nat (MaxRetries ?r + 1 - 0)"
    unfolding RoundTrip_def by (rule loop_invocations_le)
  with assms show ?thesis
    by (simp add: NewHTTPRetryClient_MaxRetries nat_add_distrib)
qed

lemma negative_MaxRetries_makes_no_attempt:
  assumes "MaxRetries r < 0"
  shows "RoundTrip pf r req w
      = \<lparr>result = Err ErrAllRetriesFailed, request = req, world = w, trace = []\<rparr>"
  using assms unfolding RoundTrip_def by (intro loop_stop) simp

end
